theory Spec2Isabelle
  imports Complex_Main "HOL-Library.Sublist" "HOL-Library.Product_Lexorder"
begin

section \<open>Data model\<close>

text \<open>
  The classes \<open>Movie\<close>, \<open>MovieFilters\<close>, \<open>CreateMovieCommand\<close> and
  \<open>UpdateMovieCommand\<close> are imported by \<open>database.py\<close> from \<open>models.py\<close>. Their
  fields are taken from the places where \<open>database.py\<close> and \<open>main.py\<close> read and write
  them: the constructor call in \<open>create_movie\<close>, the attribute reads in
  \<open>_apply_filters\<close> and \<open>update_movie\<close>, and the parameters of \<open>create_filters\<close>.

  Python strings are lists of characters; every character is a code point below 256
  (the loaders read the files as latin-1). Python floats are modelled by the real
  numbers they denote: the code only compares them and tests them for zero; a float
  that is not a number has no counterpart here. A value
  that may be \<open>None\<close> is an \<open>option\<close>. A list entry such as a genre or a cast
  member is a dictionary with string keys; it is an association list here, read with
  \<open>map_of\<close>.

  Field names are the source's, with a prefix where two classes share a name:
  \<open>c_\<close> for \<open>CreateMovieCommand\<close>, \<open>u_\<close> for \<open>UpdateMovieCommand\<close>, \<open>f_\<close> for
  \<open>MovieFilters\<close>; \<open>movie_id\<close> is the field \<open>id\<close>.
\<close>

type_synonym entry = "(string \<times> string) list"

record movie =
  movie_id :: int
  title :: "string option"
  overview :: "string option"
  genres :: "entry list"
  movie_keywords :: "entry list"
  tagline :: "string option"
  cast :: "entry list"
  crew :: "entry list"
  production_companies :: "entry list"
  production_countries :: "entry list"
  spoken_languages :: "entry list"
  original_language :: "string option"
  original_title :: "string option"
  release_date :: "string option"
  runtime :: "int option"
  vote_average :: "real option"
  vote_count :: "int option"
  popularity :: "real option"
  is_favorite :: bool
  personal_rating :: "real option"
  personal_notes :: "string option"

record create_movie_command =
  c_title :: "string option"
  c_overview :: "string option"
  c_genres :: "entry list"
  c_keywords :: "entry list"
  c_tagline :: "string option"
  c_cast :: "entry list"
  c_crew :: "entry list"
  c_production_companies :: "entry list"
  c_production_countries :: "entry list"
  c_spoken_languages :: "entry list"
  c_original_language :: "string option"
  c_original_title :: "string option"
  c_release_date :: "string option"
  c_runtime :: "int option"
  c_vote_average :: "real option"
  c_vote_count :: "int option"
  c_popularity :: "real option"

text \<open>
  \<open>update_movie\<close> reads five attributes of the command and tests each with
  \<open>is not None\<close>. An attribute the caller left out and an attribute the caller sent
  as \<open>null\<close> are both \<open>None\<close> when \<open>update_movie\<close> reads them (\<open>toggle_favorite\<close>
  builds a command from \<open>is_favorite\<close> alone and relies on the other four being
  \<open>None\<close>).
\<close>

record update_movie_command =
  u_title :: "string option"
  u_overview :: "string option"
  u_is_favorite :: "bool option"
  u_personal_rating :: "real option"
  u_personal_notes :: "string option"

record movie_filters =
  f_search :: "string option"
  f_genres :: "string list option"
  f_year_from :: "int option"
  f_year_to :: "int option"
  f_rating_from :: "real option"
  f_rating_to :: "real option"
  f_runtime_from :: "int option"
  f_runtime_to :: "int option"
  f_language :: "string option"
  f_is_favorite :: "bool option"
  f_personal_rating_from :: "real option"
  f_personal_rating_to :: "real option"

section \<open>Python primitives used by the code\<close>

text \<open>\<open>str.lower\<close> on code points below 256: A-Z and the Latin-1 capitals.\<close>

definition lower_char :: "char \<Rightarrow> char" where
  "lower_char c =
     (let n = (of_char c :: nat)
      in if (65 \<le> n \<and> n \<le> 90) \<or> (192 \<le> n \<and> n \<le> 222 \<and> n \<noteq> 215)
         then char_of (n + 32) else c)"

definition lower :: "string \<Rightarrow> string" where
  "lower s = map lower_char s"

text \<open>\<open>needle in hay\<close> and \<open>hay.find(needle) >= 0\<close> for strings.\<close>

fun contains :: "string \<Rightarrow> string \<Rightarrow> bool" where
  "contains [] needle = (needle = [])"
| "contains (c # cs) needle = (prefix needle (c # cs) \<or> contains cs needle)"

text \<open>\<open>d.get(key, default)\<close>.\<close>

definition dict_get :: "entry \<Rightarrow> string \<Rightarrow> string \<Rightarrow> string" where
  "dict_get d k dflt = (case map_of d k of None \<Rightarrow> dflt | Some v \<Rightarrow> v)"

text \<open>
  \<open>s.split("-")[0]\<close>: the characters before the first hyphen. \<open>split\<close> with a
  separator returns at least one piece, so the index never fails.
\<close>

definition split_first :: "string \<Rightarrow> string" where
  "split_first s = takeWhile (\<lambda>c. c \<noteq> CHR ''-'') s"

text \<open>
  \<open>int(s)\<close> for a string: whitespace on either side is dropped, one sign is allowed,
  then decimal digits, where single underscores may stand between digits. Anything
  else raises \<open>ValueError\<close>, which is \<open>None\<close> here. Among the code points below 256
  the whitespace that \<open>int\<close> drops is 9 to 13, 32, 133 and 160 (the separators 28 to
  31 are not dropped and make \<open>int\<close> raise), and the decimal digits are 48 to 57.
  A string with more than \<open>int_max_str_digits\<close> digit characters (4300 unless the
  interpreter is configured otherwise, which the code does not do) raises
  \<open>ValueError\<close> as well; leading zeros count, underscores, the sign and the whitespace
  do not.
\<close>

definition is_space :: "char \<Rightarrow> bool" where
  "is_space c =
     (let n = (of_char c :: nat)
      in (9 \<le> n \<and> n \<le> 13) \<or> n = 32 \<or> n = 133 \<or> n = 160)"

definition is_digit :: "char \<Rightarrow> bool" where
  "is_digit c = (let n = (of_char c :: nat) in 48 \<le> n \<and> n \<le> 57)"

definition digit_val :: "char \<Rightarrow> int" where
  "digit_val c = int (of_char c) - 48"

definition strip :: "string \<Rightarrow> string" where
  "strip s = rev (dropWhile is_space (rev (dropWhile is_space s)))"

definition int_max_str_digits :: nat where
  "int_max_str_digits = 4300"

text \<open>
  \<open>digits acc prev s\<close> reads the digits of \<open>s\<close>; \<open>prev\<close> tells whether the last
  character read was a digit, which an underscore needs before and after it.
\<close>

fun digits :: "int \<Rightarrow> bool \<Rightarrow> string \<Rightarrow> int option" where
  "digits acc prev [] = (if prev then Some acc else None)"
| "digits acc prev (c # cs) =
     (if is_digit c then digits (10 * acc + digit_val c) True cs
      else if c = CHR ''_'' \<and> prev \<and> cs \<noteq> [] then digits acc False cs
      else None)"

definition py_int :: "string \<Rightarrow> int option" where
  "py_int s =
     (case strip s of
        [] \<Rightarrow> None
      | c # cs \<Rightarrow>
          (let body = (if c = CHR ''+'' \<or> c = CHR ''-'' then cs else c # cs)
           in if length (filter is_digit body) > int_max_str_digits then None
              else if c = CHR ''+'' then digits 0 False cs
              else if c = CHR ''-'' then map_option uminus (digits 0 False cs)
              else digits 0 False (c # cs)))"

text \<open>
  \<open>xs[start:stop]\<close>: a negative index counts from the end, and both indices are
  clipped to the list, so a slice never raises.
\<close>

definition py_slice :: "'a list \<Rightarrow> int \<Rightarrow> int \<Rightarrow> 'a list" where
  "py_slice xs start stop =
     (let n = int (length xs);
          lo = (if start < 0 then max (start + n) 0 else min start n);
          hi = (if stop < 0 then max (stop + n) 0 else min stop n)
      in take (nat (hi - lo)) (drop (nat lo) xs))"

section \<open>The filter engine: \<open>_apply_filters\<close> and \<open>_check_year_filter\<close>\<close>

text \<open>
  Python truthiness, as the conditions of the source use it: \<open>None\<close>, the empty string,
  the empty list and the number zero are false.
\<close>

definition truthy_str :: "string option \<Rightarrow> bool" where
  "truthy_str s = (case s of None \<Rightarrow> False | Some v \<Rightarrow> v \<noteq> [])"

definition truthy_list :: "'a list option \<Rightarrow> bool" where
  "truthy_list s = (case s of None \<Rightarrow> False | Some v \<Rightarrow> v \<noteq> [])"

definition truthy_num :: "('a::zero) option \<Rightarrow> bool" where
  "truthy_num x = (case x of None \<Rightarrow> False | Some v \<Rightarrow> v \<noteq> 0)"

definition check_year_filter :: "string option \<Rightarrow> int option \<Rightarrow> int option \<Rightarrow> bool" where
  "check_year_filter rd year_from year_to =
     (if \<not> truthy_str rd then False
      else case py_int (split_first (the rd)) of
             None \<Rightarrow> False
           | Some year \<Rightarrow>
               if truthy_num year_from \<and> year < the year_from then False
               else if truthy_num year_to \<and> year > the year_to then False
               else True)"

definition search_match :: "string \<Rightarrow> movie \<Rightarrow> bool" where
  "search_match search_term m =
     ((truthy_str (title m) \<and> contains (lower (the (title m))) search_term) \<or>
      (truthy_str (overview m) \<and> contains (lower (the (overview m))) search_term) \<or>
      (\<exists>cast_member \<in> set (cast m). contains (lower (dict_get cast_member ''name'' '''')) search_term) \<or>
      (\<exists>crew_member \<in> set (crew m). contains (lower (dict_get crew_member ''name'' '''')) search_term))"

definition genre_match :: "string list \<Rightarrow> movie \<Rightarrow> bool" where
  "genre_match gs m =
     (\<exists>genre \<in> set (genres m). lower (dict_get genre ''name'' '''') \<in> set (map lower gs))"

text \<open>
  \<open>num_ge\<close> and \<open>num_le\<close> are the conditions \<open>v and v >= b\<close> and \<open>v and v <= b\<close> of
  the six numeric list comprehensions.
\<close>

definition num_ge :: "('a::{zero,ord}) option \<Rightarrow> 'a \<Rightarrow> bool" where
  "num_ge v b = (truthy_num v \<and> the v \<ge> b)"

definition num_le :: "('a::{zero,ord}) option \<Rightarrow> 'a \<Rightarrow> bool" where
  "num_le v b = (truthy_num v \<and> the v \<le> b)"

text \<open>
  One definition per \<open>if\<close> block of \<open>_apply_filters\<close>, in the order of the source;
  each block either leaves \<open>filtered\<close> as it is or replaces it by a list
  comprehension over it.
\<close>

definition step_search :: "movie_filters \<Rightarrow> movie list \<Rightarrow> movie list" where
  "step_search f filtered =
     (if truthy_str (f_search f)
      then filter (search_match (lower (the (f_search f)))) filtered else filtered)"

definition step_genres :: "movie_filters \<Rightarrow> movie list \<Rightarrow> movie list" where
  "step_genres f filtered =
     (if truthy_list (f_genres f)
      then filter (genre_match (the (f_genres f))) filtered else filtered)"

definition step_year :: "movie_filters \<Rightarrow> movie list \<Rightarrow> movie list" where
  "step_year f filtered =
     (if truthy_num (f_year_from f) \<or> truthy_num (f_year_to f)
      then filter (\<lambda>m. check_year_filter (release_date m) (f_year_from f) (f_year_to f)) filtered
      else filtered)"

definition step_rating_from :: "movie_filters \<Rightarrow> movie list \<Rightarrow> movie list" where
  "step_rating_from f filtered =
     (case f_rating_from f of None \<Rightarrow> filtered
      | Some b \<Rightarrow> filter (\<lambda>m. num_ge (vote_average m) b) filtered)"

definition step_rating_to :: "movie_filters \<Rightarrow> movie list \<Rightarrow> movie list" where
  "step_rating_to f filtered =
     (case f_rating_to f of None \<Rightarrow> filtered
      | Some b \<Rightarrow> filter (\<lambda>m. num_le (vote_average m) b) filtered)"

definition step_runtime_from :: "movie_filters \<Rightarrow> movie list \<Rightarrow> movie list" where
  "step_runtime_from f filtered =
     (case f_runtime_from f of None \<Rightarrow> filtered
      | Some b \<Rightarrow> filter (\<lambda>m. num_ge (runtime m) b) filtered)"

definition step_runtime_to :: "movie_filters \<Rightarrow> movie list \<Rightarrow> movie list" where
  "step_runtime_to f filtered =
     (case f_runtime_to f of None \<Rightarrow> filtered
      | Some b \<Rightarrow> filter (\<lambda>m. num_le (runtime m) b) filtered)"

definition step_language :: "movie_filters \<Rightarrow> movie list \<Rightarrow> movie list" where
  "step_language f filtered =
     (if truthy_str (f_language f)
      then filter (\<lambda>m. original_language m = f_language f) filtered else filtered)"

definition step_favorite :: "movie_filters \<Rightarrow> movie list \<Rightarrow> movie list" where
  "step_favorite f filtered =
     (case f_is_favorite f of None \<Rightarrow> filtered
      | Some b \<Rightarrow> filter (\<lambda>m. is_favorite m = b) filtered)"

definition step_personal_from :: "movie_filters \<Rightarrow> movie list \<Rightarrow> movie list" where
  "step_personal_from f filtered =
     (case f_personal_rating_from f of None \<Rightarrow> filtered
      | Some b \<Rightarrow> filter (\<lambda>m. num_ge (personal_rating m) b) filtered)"

definition step_personal_to :: "movie_filters \<Rightarrow> movie list \<Rightarrow> movie list" where
  "step_personal_to f filtered =
     (case f_personal_rating_to f of None \<Rightarrow> filtered
      | Some b \<Rightarrow> filter (\<lambda>m. num_le (personal_rating m) b) filtered)"

text \<open>
  \<open>not filters\<close> holds only for \<open>None\<close>: a filters object has no length and no truth
  value of its own.
\<close>

definition apply_filters :: "movie list \<Rightarrow> movie_filters option \<Rightarrow> movie list" where
  "apply_filters ms filters =
     (case filters of
        None \<Rightarrow> ms
      | Some f \<Rightarrow>
          step_personal_to f (step_personal_from f (step_favorite f (step_language f
            (step_runtime_to f (step_runtime_from f (step_rating_to f (step_rating_from f
              (step_year f (step_genres f (step_search f ms)))))))))))"

section \<open>The store: \<open>MovieDatabase\<close>\<close>

text \<open>
  The state of a \<open>MovieDatabase\<close> object. The lock serialises the bodies of the
  methods, so each method is one state transition; \<open>data_source\<close> is a path and is
  represented by what stands at that path (the record \<open>source\<close> below).
\<close>

record db =
  movies :: "movie list"
  next_id :: int
  use_chunks :: bool
  loaded :: bool

text \<open>\<open>__init__\<close>: a \<open>csv_path\<close> selects the single-file loader.\<close>

definition init_db :: "bool \<Rightarrow> db" where
  "init_db csv_path_given =
     \<lparr>movies = [], next_id = 1, use_chunks = \<not> csv_path_given, loaded = False\<rparr>"

definition load_chunk_size :: nat where
  "load_chunk_size = 200"

text \<open>
  What the loaders find at \<open>data_source\<close>. \<open>src_exists\<close> is \<open>data_source.exists()\<close>.
  For the directory loader, \<open>chunk_files\<close> lists the files matching
  \<open>movies_chunk_*.csv\<close> in sorted order, each either the rows \<open>pd.read_csv\<close> returns
  or \<open>None\<close> when it raises. For the single-file loader, \<open>encoding_found\<close> tells
  whether one of the four encodings reads the first rows, \<open>csv_rows\<close> are the rows of
  the file, and \<open>csv_error_at\<close> is the number of chunks the chunked reader yields
  before it raises (\<open>None\<close>: it reads to the end).
\<close>

record 'row source =
  src_exists :: bool
  chunk_files :: "'row list option list"
  encoding_found :: bool
  csv_rows :: "'row list"
  csv_error_at :: "nat option"

datatype load_error = NoCompatibleEncoding

text \<open>
  \<open>Movie.from_csv_row(row, movie_id)\<close> is defined in \<open>models.py\<close>; the loaders take
  it as the parameter \<open>from_csv_row\<close>, with \<open>None\<close> for a call that raises (the
  \<open>except\<close> branch of the row loops).
\<close>

type_synonym 'row row_parser = "'row \<Rightarrow> int \<Rightarrow> movie option"

subsection \<open>\<open>_load_from_chunks\<close>\<close>

fun chunk_rows_loop :: "'row row_parser \<Rightarrow> 'row list \<Rightarrow> int \<times> movie list \<Rightarrow> int \<times> movie list" where
  "chunk_rows_loop from_csv_row [] (total_loaded, ms) = (total_loaded, ms)"
| "chunk_rows_loop from_csv_row (row # rows) (total_loaded, ms) =
     (case from_csv_row row (total_loaded + 1) of
        None \<Rightarrow> chunk_rows_loop from_csv_row rows (total_loaded, ms)
      | Some m \<Rightarrow> chunk_rows_loop from_csv_row rows (total_loaded + 1, ms @ [m]))"

fun chunk_files_loop :: "'row row_parser \<Rightarrow> 'row list option list \<Rightarrow> int \<times> movie list \<Rightarrow> int \<times> movie list" where
  "chunk_files_loop from_csv_row [] st = st"
| "chunk_files_loop from_csv_row (None # files) st = chunk_files_loop from_csv_row files st"
| "chunk_files_loop from_csv_row (Some rows # files) st =
     chunk_files_loop from_csv_row files (chunk_rows_loop from_csv_row rows st)"

definition load_from_chunks :: "'row row_parser \<Rightarrow> 'row source \<Rightarrow> db \<Rightarrow> load_error + db" where
  "load_from_chunks from_csv_row src s =
     (if \<not> src_exists src then Inr s
      else if chunk_files src = [] then Inr s
      else let ms = snd (chunk_files_loop from_csv_row (chunk_files src) (0, []))
           in Inr (s\<lparr>movies := ms, next_id := int (length ms) + 1\<rparr>))"

subsection \<open>\<open>_load_from_csv_chunked\<close>\<close>

text \<open>The chunked reader cuts the rows into pieces of \<open>chunksize\<close> rows.\<close>

function chunks_of :: "nat \<Rightarrow> 'a list \<Rightarrow> 'a list list" where
  "chunks_of n xs = (if n = 0 \<or> xs = [] then [] else take n xs # chunks_of n (drop n xs))"
  by pat_completeness auto
termination
  by (relation "measure (\<lambda>(n, xs). length xs)") auto

declare chunks_of.simps [simp del]

text \<open>
  The row loop of one chunk. \<open>idx - chunk_df.index[0]\<close> is the position \<open>pos\<close> of the
  row in its chunk; a row that fails is skipped, and the position still advances.
\<close>

fun csv_rows_loop :: "'row row_parser \<Rightarrow> int \<Rightarrow> int \<Rightarrow> 'row list \<Rightarrow> movie list \<Rightarrow> movie list" where
  "csv_rows_loop from_csv_row processed_count pos [] ms = ms"
| "csv_rows_loop from_csv_row processed_count pos (row # rows) ms =
     (case from_csv_row row (processed_count + pos + 1) of
        None \<Rightarrow> csv_rows_loop from_csv_row processed_count (pos + 1) rows ms
      | Some m \<Rightarrow> csv_rows_loop from_csv_row processed_count (pos + 1) rows (ms @ [m]))"

text \<open>After each chunk, \<open>processed_count = len(self._movies)\<close>; before the first it is 0.\<close>

fun csv_chunks_loop :: "'row row_parser \<Rightarrow> 'row list list \<Rightarrow> movie list \<Rightarrow> movie list" where
  "csv_chunks_loop from_csv_row [] ms = ms"
| "csv_chunks_loop from_csv_row (chunk # chunks) ms =
     csv_chunks_loop from_csv_row chunks
       (csv_rows_loop from_csv_row (int (length ms)) 0 chunk ms)"

text \<open>
  Both the normal end of the \<open>try\<close> block and its \<open>except\<close> branch set
  \<open>_next_id = len(self._movies) + 1\<close>; they differ in the chunks that were read.
\<close>

definition load_from_csv_chunked :: "'row row_parser \<Rightarrow> 'row source \<Rightarrow> db \<Rightarrow> load_error + db" where
  "load_from_csv_chunked from_csv_row src s =
     (if \<not> src_exists src then Inr s
      else if \<not> encoding_found src then Inl NoCompatibleEncoding
      else let chunks = chunks_of load_chunk_size (csv_rows src);
               yielded = (case csv_error_at src of None \<Rightarrow> chunks | Some k \<Rightarrow> take k chunks);
               ms = csv_chunks_loop from_csv_row yielded []
           in Inr (s\<lparr>movies := ms, next_id := int (length ms) + 1\<rparr>))"

subsection \<open>\<open>_ensure_loaded\<close>\<close>

definition load :: "'row row_parser \<Rightarrow> 'row source \<Rightarrow> db \<Rightarrow> load_error + db" where
  "load from_csv_row src s =
     (if use_chunks s then load_from_chunks from_csv_row src s
      else load_from_csv_chunked from_csv_row src s)"

text \<open>
  The only \<open>raise\<close> of the loaders comes before their first assignment, so the state
  the \<open>except\<close> branch works on is the state before the call.
\<close>

definition ensure_loaded :: "'row row_parser \<Rightarrow> 'row source \<Rightarrow> db \<Rightarrow> db" where
  "ensure_loaded from_csv_row src s =
     (if loaded s then s
      else case load from_csv_row src s of
             Inr s' \<Rightarrow> s'\<lparr>loaded := True\<rparr>
           | Inl e \<Rightarrow> s\<lparr>movies := [], loaded := True\<rparr>)"

subsection \<open>\<open>get_movies_paginated\<close>\<close>

definition get_movies_paginated ::
  "'row row_parser \<Rightarrow> 'row source \<Rightarrow> int \<Rightarrow> int \<Rightarrow> movie_filters option \<Rightarrow> db \<Rightarrow> (movie list \<times> int) \<times> db" where
  "get_movies_paginated from_csv_row src page sz filters s =
     (let s1 = ensure_loaded from_csv_row src s;
          filtered_movies = apply_filters (movies s1) filters;
          total = int (length filtered_movies);
          start_idx = (page - 1) * sz;
          end_idx = start_idx + sz
      in ((py_slice filtered_movies start_idx end_idx, total), s1))"

subsection \<open>\<open>create_movie\<close>\<close>

text \<open>The \<open>Movie(...)\<close> constructor call of \<open>create_movie\<close>.\<close>

definition new_movie :: "int \<Rightarrow> create_movie_command \<Rightarrow> movie" where
  "new_movie i command =
     \<lparr>movie_id = i,
      title = c_title command,
      overview = c_overview command,
      genres = c_genres command,
      movie_keywords = c_keywords command,
      tagline = c_tagline command,
      cast = c_cast command,
      crew = c_crew command,
      production_companies = c_production_companies command,
      production_countries = c_production_countries command,
      spoken_languages = c_spoken_languages command,
      original_language = c_original_language command,
      original_title = c_original_title command,
      release_date = c_release_date command,
      runtime = c_runtime command,
      vote_average = c_vote_average command,
      vote_count = c_vote_count command,
      popularity = c_popularity command,
      is_favorite = False,
      personal_rating = None,
      personal_notes = None\<rparr>"

definition create_movie :: "'row row_parser \<Rightarrow> 'row source \<Rightarrow> create_movie_command \<Rightarrow> db \<Rightarrow> int \<times> db" where
  "create_movie from_csv_row src command s =
     (let s1 = ensure_loaded from_csv_row src s;
          m = new_movie (next_id s1) command
      in (movie_id m, s1\<lparr>movies := movies s1 @ [m], next_id := next_id s1 + 1\<rparr>))"

subsection \<open>\<open>update_movie\<close>\<close>

text \<open>The five assignments made to the movie that the loop finds.\<close>

definition apply_update :: "update_movie_command \<Rightarrow> movie \<Rightarrow> movie" where
  "apply_update command m =
     (let m1 = (case u_title command of None \<Rightarrow> m | Some v \<Rightarrow> m\<lparr>title := Some v\<rparr>);
          m2 = (case u_overview command of None \<Rightarrow> m1 | Some v \<Rightarrow> m1\<lparr>overview := Some v\<rparr>);
          m3 = (case u_is_favorite command of None \<Rightarrow> m2 | Some v \<Rightarrow> m2\<lparr>is_favorite := v\<rparr>);
          m4 = (case u_personal_rating command of None \<Rightarrow> m3
                | Some v \<Rightarrow> m3\<lparr>personal_rating := Some v\<rparr>);
          m5 = (case u_personal_notes command of None \<Rightarrow> m4
                | Some v \<Rightarrow> m4\<lparr>personal_notes := Some v\<rparr>)
      in m5)"

fun update_loop :: "int \<Rightarrow> update_movie_command \<Rightarrow> movie list \<Rightarrow> bool \<times> movie list" where
  "update_loop i command [] = (False, [])"
| "update_loop i command (m # ms) =
     (if movie_id m = i then (True, apply_update command m # ms)
      else case update_loop i command ms of (found, ms') \<Rightarrow> (found, m # ms'))"

definition update_movie ::
  "'row row_parser \<Rightarrow> 'row source \<Rightarrow> int \<Rightarrow> update_movie_command \<Rightarrow> db \<Rightarrow> bool \<times> db" where
  "update_movie from_csv_row src i command s =
     (let s1 = ensure_loaded from_csv_row src s
      in case update_loop i command (movies s1) of
           (found, ms') \<Rightarrow> (found, s1\<lparr>movies := ms'\<rparr>))"

subsection \<open>\<open>delete_movie\<close> and \<open>get_movie_by_id\<close>\<close>

fun delete_loop :: "int \<Rightarrow> movie list \<Rightarrow> bool \<times> movie list" where
  "delete_loop i [] = (False, [])"
| "delete_loop i (m # ms) =
     (if movie_id m = i then (True, ms)
      else case delete_loop i ms of (found, ms') \<Rightarrow> (found, m # ms'))"

definition delete_movie :: "'row row_parser \<Rightarrow> 'row source \<Rightarrow> int \<Rightarrow> db \<Rightarrow> bool \<times> db" where
  "delete_movie from_csv_row src i s =
     (let s1 = ensure_loaded from_csv_row src s
      in case delete_loop i (movies s1) of
           (found, ms') \<Rightarrow> (found, s1\<lparr>movies := ms'\<rparr>))"

definition get_movie_by_id :: "'row row_parser \<Rightarrow> 'row source \<Rightarrow> int \<Rightarrow> db \<Rightarrow> movie option \<times> db" where
  "get_movie_by_id from_csv_row src i s =
     (let s1 = ensure_loaded from_csv_row src s
      in (find (\<lambda>m. movie_id m = i) (movies s1), s1))"

section \<open>The API layer: \<open>get_movies\<close> and \<open>get_stats\<close> of \<open>main.py\<close>\<close>

text \<open>
  The handlers work on the one store \<open>db\<close> of the process. The bounds declared on the
  query parameters (\<open>page\<close> at least 1, \<open>size\<close> from 1 to 100) are checked before the
  body of \<open>get_movies\<close> runs; a request outside them is answered with an error and
  does not reach the store.
\<close>

datatype api_error = ValidationError

record paginated_movie_response =
  r_items :: "movie list"
  r_total :: int
  r_page :: int
  r_size :: int
  r_pages :: int

text \<open>\<open>math.ceil(total / size) if total > 0 else 1\<close>, for a \<open>size\<close> that is not zero.\<close>

definition page_count :: "int \<Rightarrow> int \<Rightarrow> int" where
  "page_count total_matches sz =
     (if total_matches > 0 then \<lceil>real_of_int total_matches / real_of_int sz\<rceil> else 1)"

definition get_movies ::
  "'row row_parser \<Rightarrow> 'row source \<Rightarrow> int \<Rightarrow> int \<Rightarrow> movie_filters option \<Rightarrow> db
     \<Rightarrow> (api_error + paginated_movie_response) \<times> db" where
  "get_movies from_csv_row src page sz filters s =
     (if page < 1 \<or> sz < 1 \<or> sz > 100 then (Inl ValidationError, s)
      else case get_movies_paginated from_csv_row src page sz filters s of
             ((ms, total_count), s') \<Rightarrow>
               (Inr \<lparr>r_items = ms, r_total = total_count, r_page = page, r_size = sz,
                     r_pages = page_count total_count sz\<rparr>, s'))"

text \<open>
  A dictionary of counters keeps its keys in the order of their first insertion:
  \<open>counts[k] = counts.get(k, 0) + 1\<close> on an association list.
\<close>

fun bump :: "'k \<Rightarrow> ('k \<times> int) list \<Rightarrow> ('k \<times> int) list" where
  "bump k [] = [(k, 1)]"
| "bump k ((k', c) # rest) = (if k = k' then (k', c + 1) # rest else (k', c) # bump k rest)"

definition genre_names :: "movie list \<Rightarrow> string list" where
  "genre_names ms = concat (map (\<lambda>m. map (\<lambda>genre. dict_get genre ''name'' ''Unknown'') (genres m)) ms)"

text \<open>
  The decade of a movie, or \<open>None\<close> where the loop body does nothing: the release
  date is empty or \<open>None\<close>, or \<open>int\<close> raises.
\<close>

definition decade_of :: "movie \<Rightarrow> int option" where
  "decade_of m =
     (if truthy_str (release_date m)
      then map_option (\<lambda>year. (year div 10) * 10) (py_int (split_first (the (release_date m))))
      else None)"

definition decades :: "movie list \<Rightarrow> int list" where
  "decades ms = concat (map (\<lambda>m. case decade_of m of None \<Rightarrow> [] | Some d \<Rightarrow> [d]) ms)"

record stats =
  total_movies :: int
  favorites_count :: int
  rated_count :: int
  top_genres :: "(string \<times> int) list"
  decade_distribution :: "(int \<times> int) list"

text \<open>
  \<open>sorted(..., key=lambda x: x[1], reverse=True)\<close> is a stable sort by descending
  count: entries with the same count keep their order. \<open>sort_key\<close> is stable, so it
  is the sort by the negated count. \<open>sorted(year_counts.items())\<close> compares pairs.
\<close>

definition get_stats :: "'row row_parser \<Rightarrow> 'row source \<Rightarrow> db \<Rightarrow> stats \<times> db" where
  "get_stats from_csv_row src s =
     (case get_movies_paginated from_csv_row src 1 99999 None s of
        ((all_movies, total_count), s') \<Rightarrow>
          (let genre_counts = foldl (\<lambda>counts name. bump name counts) [] (genre_names all_movies);
               year_counts = foldl (\<lambda>counts d. bump d counts) [] (decades all_movies)
           in \<lparr>total_movies = total_count,
                favorites_count = int (length (filter is_favorite all_movies)),
                rated_count = int (length (filter (\<lambda>m. personal_rating m \<noteq> None) all_movies)),
                top_genres = take 10 (sort_key (\<lambda>x. - snd x) genre_counts),
                decade_distribution = sort year_counts\<rparr>, s'))"

section \<open>Example data and derived notions\<close>

text \<open>
  \<open>MovieFilters()\<close> with no argument, as \<open>search_movies\<close> and \<open>get_favorite_movies\<close>
  complete it: every criterion is \<open>None\<close>.
\<close>

definition no_filters :: movie_filters where
  "no_filters =
     \<lparr>f_search = None, f_genres = None, f_year_from = None, f_year_to = None,
      f_rating_from = None, f_rating_to = None, f_runtime_from = None, f_runtime_to = None,
      f_language = None, f_is_favorite = None,
      f_personal_rating_from = None, f_personal_rating_to = None\<rparr>"

text \<open>The command that \<open>test_crud_operations\<close> of \<open>test_fixes.py\<close> posts.\<close>

definition test_command :: create_movie_command where
  "test_command =
     \<lparr>c_title = Some ''Test Movie'',
      c_overview = Some ''A test movie for CRUD testing'',
      c_genres = [[(''name'', ''Test'')]],
      c_keywords = [], c_tagline = None, c_cast = [], c_crew = [],
      c_production_companies = [], c_production_countries = [], c_spoken_languages = [],
      c_original_language = None, c_original_title = None,
      c_release_date = Some ''2024-01-01'',
      c_runtime = None, c_vote_average = None, c_vote_count = None, c_popularity = None\<rparr>"

definition test_movie :: movie where
  "test_movie = new_movie 1 test_command"

text \<open>\<open>UpdateMovieCommand(is_favorite=b)\<close>, the command \<open>toggle_favorite\<close> builds.\<close>

definition favorite_command :: "bool \<Rightarrow> update_movie_command" where
  "favorite_command b =
     \<lparr>u_title = None, u_overview = None, u_is_favorite = Some b,
      u_personal_rating = None, u_personal_notes = None\<rparr>"

text \<open>
  Modelled from the spec: \<open>Movie.from_csv_row\<close> of \<open>models.py\<close>, which is not among
  the sources. The loaders only depend on whether the call raises and on the
  identifier of the record it returns, so a row is either malformed (the call raises
  and the row loop skips it) or it carries the fields of a record, which then gets the
  identifier passed in.
\<close>

datatype csv_row = Malformed | Row create_movie_command

fun from_csv_row_model :: "csv_row row_parser" where
  "from_csv_row_model Malformed i = None"
| "from_csv_row_model (Row command) i = Some (new_movie i command)"

text \<open>A source with nothing at \<open>data_source\<close>, and a store that has been loaded.\<close>

definition missing_source :: "csv_row source" where
  "missing_source =
     \<lparr>src_exists = False, chunk_files = [], encoding_found = False, csv_rows = [],
      csv_error_at = None\<rparr>"

definition loaded_db :: "movie list \<Rightarrow> int \<Rightarrow> db" where
  "loaded_db ms n = \<lparr>movies = ms, next_id = n, use_chunks = True, loaded = True\<rparr>"

text \<open>
  The criterion that \<open>_apply_filters\<close> applies to one record: the conjunction of the
  conditions of its list comprehensions, each guarded by the test of its \<open>if\<close>.
\<close>

definition keeps :: "movie_filters \<Rightarrow> movie \<Rightarrow> bool" where
  "keeps f m =
     ((if truthy_str (f_search f) then search_match (lower (the (f_search f))) m else True) \<and>
      (if truthy_list (f_genres f) then genre_match (the (f_genres f)) m else True) \<and>
      (if truthy_num (f_year_from f) \<or> truthy_num (f_year_to f)
       then check_year_filter (release_date m) (f_year_from f) (f_year_to f) else True) \<and>
      (case f_rating_from f of None \<Rightarrow> True | Some b \<Rightarrow> num_ge (vote_average m) b) \<and>
      (case f_rating_to f of None \<Rightarrow> True | Some b \<Rightarrow> num_le (vote_average m) b) \<and>
      (case f_runtime_from f of None \<Rightarrow> True | Some b \<Rightarrow> num_ge (runtime m) b) \<and>
      (case f_runtime_to f of None \<Rightarrow> True | Some b \<Rightarrow> num_le (runtime m) b) \<and>
      (if truthy_str (f_language f) then original_language m = f_language f else True) \<and>
      (case f_is_favorite f of None \<Rightarrow> True | Some b \<Rightarrow> is_favorite m = b) \<and>
      (case f_personal_rating_from f of None \<Rightarrow> True | Some b \<Rightarrow> num_ge (personal_rating m) b) \<and>
      (case f_personal_rating_to f of None \<Rightarrow> True | Some b \<Rightarrow> num_le (personal_rating m) b))"

text \<open>
  Criteria with wide bounds on each numeric attribute, and criteria with year bounds
  alone.
\<close>

definition wide_filters :: movie_filters where
  "wide_filters =
     no_filters\<lparr>f_rating_from := Some 0, f_runtime_to := Some 100000,
                f_personal_rating_from := Some 0, f_personal_rating_to := Some 10\<rparr>"

definition year_filters :: "int option \<Rightarrow> int option \<Rightarrow> movie_filters" where
  "year_filters year_from year_to = no_filters\<lparr>f_year_from := year_from, f_year_to := year_to\<rparr>"

text \<open>Records for the examples: attributes equal to zero, and given release dates.\<close>

definition zero_movie :: movie where
  "zero_movie = test_movie\<lparr>runtime := Some 0, vote_average := Some 0, personal_rating := Some 0\<rparr>"

definition two_movies :: "movie list" where
  "two_movies = [test_movie, zero_movie\<lparr>movie_id := 2\<rparr>]"

definition dated :: "string \<Rightarrow> movie" where
  "dated d = test_movie\<lparr>release_date := Some d\<rparr>"

definition three_dates :: "movie list" where
  "three_dates = [dated ''2022-05-01'', dated '''', dated ''May 2022'']"

text \<open>
  The year that \<open>_check_year_filter\<close> and \<open>get_stats\<close> read from a release date:
  \<open>int(release_date.split("-")[0])\<close>, and \<open>None\<close> when the date is \<open>None\<close> or empty or
  \<open>int\<close> raises.
\<close>

definition release_year :: "string option \<Rightarrow> int option" where
  "release_year rd = (if truthy_str rd then py_int (split_first (the rd)) else None)"

text \<open>
  Stores and commands for the examples. \<open>test_update\<close> is the body that
  \<open>test_crud_operations\<close> puts; \<open>null_command\<close> is what \<open>update_movie\<close> reads for a
  body such as \<open>{"personal_rating": null, "personal_notes": null}\<close>.
\<close>

definition two_db :: db where
  "two_db = loaded_db two_movies 3"

definition rated_movie :: movie where
  "rated_movie = test_movie\<lparr>personal_rating := Some 4, personal_notes := Some ''seen twice''\<rparr>"

definition rated_db :: db where
  "rated_db = loaded_db [rated_movie] 2"

definition null_command :: update_movie_command where
  "null_command =
     \<lparr>u_title = None, u_overview = None, u_is_favorite = None,
      u_personal_rating = None, u_personal_notes = None\<rparr>"

definition test_update :: update_movie_command where
  "test_update =
     \<lparr>u_title = Some ''Updated Test Movie'', u_overview = None, u_is_favorite = Some True,
      u_personal_rating = None, u_personal_notes = None\<rparr>"

text \<open>
  Sources for the single-file loader: a file that no encoding reads, and a file of
  three rows of which the first is malformed.
\<close>

definition unreadable_source :: "csv_row source" where
  "unreadable_source =
     \<lparr>src_exists = True, chunk_files = [], encoding_found = False, csv_rows = [],
      csv_error_at = None\<rparr>"

definition skipped_row_source :: "csv_row source" where
  "skipped_row_source =
     \<lparr>src_exists = True, chunk_files = [], encoding_found = True,
      csv_rows = [Malformed, Row test_command, Row test_command],
      csv_error_at = None\<rparr>"

text \<open>
  The store after 100000 calls of \<open>create_movie\<close> with the test command on an empty
  store, the last record then marked as favorite.
\<close>

definition many_movies :: "nat \<Rightarrow> movie list" where
  "many_movies n = map (\<lambda>k. new_movie (int k + 1) test_command) [0..<n]"

definition big_db :: db where
  "big_db =
     loaded_db (many_movies 99999 @ [(new_movie 100000 test_command)\<lparr>is_favorite := True\<rparr>]) 100001"

text \<open>The histogram loops of \<open>get_stats\<close>: one \<open>bump\<close> per key, from the empty dictionary.\<close>

definition hist :: "'k list \<Rightarrow> ('k \<times> int) list" where
  "hist ks = foldl (\<lambda>counts k. bump k counts) [] ks"

text \<open>
  The invariant on identifiers: they are distinct, at least 1 and below \<open>_next_id\<close>.
  \<open>assigns_id\<close> says that a row parser gives a record the identifier it is passed;
  \<open>numbered\<close> says that the records bear the identifiers 1, 2, ... in order.
\<close>

definition ids_fresh :: "db \<Rightarrow> bool" where
  "ids_fresh s =
     (1 \<le> next_id s \<and> distinct (map movie_id (movies s)) \<and>
      list_all (\<lambda>m. 1 \<le> movie_id m \<and> movie_id m < next_id s) (movies s))"

definition assigns_id :: "'row row_parser \<Rightarrow> bool" where
  "assigns_id p = (\<forall>row i m. p row i = Some m \<longrightarrow> movie_id m = i)"

definition numbered :: "movie list \<Rightarrow> bool" where
  "numbered ms = (map movie_id ms = map (\<lambda>k. int k + 1) [0..<length ms])"

text \<open>
  A run of calls on the store, each starting from the state the call before has left;
  \<open>run\<close> returns the identifiers that the creates returned, in order.
\<close>

datatype op = Create create_movie_command | Update int update_movie_command | Delete int

fun run :: "'row row_parser \<Rightarrow> 'row source \<Rightarrow> op list \<Rightarrow> db \<Rightarrow> int list \<times> db" where
  "run p src [] s = ([], s)"
| "run p src (Create command # ops) s =
     (case create_movie p src command s of
        (i, s') \<Rightarrow> (case run p src ops s' of (created, s'') \<Rightarrow> (i # created, s'')))"
| "run p src (Update i command # ops) s = run p src ops (snd (update_movie p src i command s))"
| "run p src (Delete i # ops) s = run p src ops (snd (delete_movie p src i s))"

section \<open>Properties of the filter engine\<close>

lemma step_search_filter:
  "step_search f ms = filter (\<lambda>m. if truthy_str (f_search f) then search_match (lower (the (f_search f))) m else True) ms"
  by (simp add: step_search_def)

lemma step_genres_filter:
  "step_genres f ms = filter (\<lambda>m. if truthy_list (f_genres f) then genre_match (the (f_genres f)) m else True) ms"
  by (simp add: step_genres_def)

lemma step_year_filter:
  "step_year f ms = filter (\<lambda>m. if truthy_num (f_year_from f) \<or> truthy_num (f_year_to f)
       then check_year_filter (release_date m) (f_year_from f) (f_year_to f) else True) ms"
  by (cases "truthy_num (f_year_from f) \<or> truthy_num (f_year_to f)") (simp_all add: step_year_def)

lemma step_rating_from_filter:
  "step_rating_from f ms = filter (\<lambda>m. case f_rating_from f of None \<Rightarrow> True | Some b \<Rightarrow> num_ge (vote_average m) b) ms"
  by (simp add: step_rating_from_def split: option.split)

lemma step_rating_to_filter:
  "step_rating_to f ms = filter (\<lambda>m. case f_rating_to f of None \<Rightarrow> True | Some b \<Rightarrow> num_le (vote_average m) b) ms"
  by (simp add: step_rating_to_def split: option.split)

lemma step_runtime_from_filter:
  "step_runtime_from f ms = filter (\<lambda>m. case f_runtime_from f of None \<Rightarrow> True | Some b \<Rightarrow> num_ge (runtime m) b) ms"
  by (simp add: step_runtime_from_def split: option.split)

lemma step_runtime_to_filter:
  "step_runtime_to f ms = filter (\<lambda>m. case f_runtime_to f of None \<Rightarrow> True | Some b \<Rightarrow> num_le (runtime m) b) ms"
  by (simp add: step_runtime_to_def split: option.split)

lemma step_language_filter:
  "step_language f ms = filter (\<lambda>m. if truthy_str (f_language f) then original_language m = f_language f else True) ms"
  by (simp add: step_language_def)

lemma step_favorite_filter:
  "step_favorite f ms = filter (\<lambda>m. case f_is_favorite f of None \<Rightarrow> True | Some b \<Rightarrow> is_favorite m = b) ms"
  by (simp add: step_favorite_def split: option.split)

lemma step_personal_from_filter:
  "step_personal_from f ms = filter (\<lambda>m. case f_personal_rating_from f of None \<Rightarrow> True | Some b \<Rightarrow> num_ge (personal_rating m) b) ms"
  by (simp add: step_personal_from_def split: option.split)

lemma step_personal_to_filter:
  "step_personal_to f ms = filter (\<lambda>m. case f_personal_rating_to f of None \<Rightarrow> True | Some b \<Rightarrow> num_le (personal_rating m) b) ms"
  by (simp add: step_personal_to_def split: option.split)

lemmas step_filters = step_search_filter step_genres_filter step_year_filter
  step_rating_from_filter step_rating_to_filter step_runtime_from_filter step_runtime_to_filter
  step_language_filter step_favorite_filter step_personal_from_filter step_personal_to_filter

lemma apply_filters_keeps: "apply_filters ms (Some f) = filter (keeps f) ms"
  unfolding apply_filters_def option.case step_filters filter_filter keeps_def
  by (rule filter_cong) auto

lemma set_apply_filters: "m \<in> set (apply_filters ms (Some f)) \<longleftrightarrow> m \<in> set ms \<and> keeps f m"
  by (simp add: apply_filters_keeps)

lemma keeps_rating: "keeps f m \<Longrightarrow> f_rating_from f \<noteq> None \<or> f_rating_to f \<noteq> None \<Longrightarrow> truthy_num (vote_average m)"
  by (auto simp: keeps_def num_ge_def num_le_def)

lemma keeps_runtime: "keeps f m \<Longrightarrow> f_runtime_from f \<noteq> None \<or> f_runtime_to f \<noteq> None \<Longrightarrow> truthy_num (runtime m)"
  by (auto simp: keeps_def num_ge_def num_le_def)

lemma keeps_personal: "keeps f m \<Longrightarrow> f_personal_rating_from f \<noteq> None \<or> f_personal_rating_to f \<noteq> None \<Longrightarrow> truthy_num (personal_rating m)"
  by (auto simp: keeps_def num_ge_def num_le_def)

lemma keeps_year: "keeps f m \<Longrightarrow> truthy_num (f_year_from f) \<or> truthy_num (f_year_to f) \<Longrightarrow>
   check_year_filter (release_date m) (f_year_from f) (f_year_to f)"
  by (auto simp: keeps_def)

text \<open>
  Claim C4. A record whose vote average, runtime or personal rating is absent is not in
  the result of \<open>_apply_filters\<close> as soon as a lower or an upper bound on that
  attribute is given, whatever the bound is.
\<close>

theorem absent_value_fails_active_bound:
  "((f_rating_from f \<noteq> None \<or> f_rating_to f \<noteq> None) \<and> vote_average m = None
      \<longrightarrow> m \<notin> set (apply_filters ms (Some f))) \<and>
   ((f_runtime_from f \<noteq> None \<or> f_runtime_to f \<noteq> None) \<and> runtime m = None
      \<longrightarrow> m \<notin> set (apply_filters ms (Some f))) \<and>
   ((f_personal_rating_from f \<noteq> None \<or> f_personal_rating_to f \<noteq> None) \<and> personal_rating m = None
      \<longrightarrow> m \<notin> set (apply_filters ms (Some f)))"
proof -
  have "truthy_num (vote_average m)"
    if "m \<in> set (apply_filters ms (Some f))" "f_rating_from f \<noteq> None \<or> f_rating_to f \<noteq> None"
    using that keeps_rating [of f m] by (simp add: set_apply_filters)
  moreover have "truthy_num (runtime m)"
    if "m \<in> set (apply_filters ms (Some f))" "f_runtime_from f \<noteq> None \<or> f_runtime_to f \<noteq> None"
    using that keeps_runtime [of f m] by (simp add: set_apply_filters)
  moreover have "truthy_num (personal_rating m)"
    if "m \<in> set (apply_filters ms (Some f))"
       "f_personal_rating_from f \<noteq> None \<or> f_personal_rating_to f \<noteq> None"
    using that keeps_personal [of f m] by (simp add: set_apply_filters)
  ultimately show ?thesis
    by (auto simp: truthy_num_def)
qed

theorem absent_value_fails_active_bound_witness:
  "f_rating_from wide_filters = Some 0 \<and> vote_average test_movie = None \<and>
   f_runtime_to wide_filters = Some 100000 \<and> runtime test_movie = None \<and>
   f_personal_rating_from wide_filters = Some 0 \<and> personal_rating test_movie = None \<and>
   test_movie \<notin> set (apply_filters [test_movie] (Some wide_filters))"
  using absent_value_fails_active_bound [of wide_filters test_movie "[test_movie]"]
  by (simp add: wide_filters_def no_filters_def test_movie_def new_movie_def test_command_def)


text \<open>
  Claim C10. A record whose vote average, runtime or personal rating is present and equal
  to zero is not in the result of \<open>_apply_filters\<close> as soon as a bound on that
  attribute is given, also when zero lies within the bound: a runtime of 0 is dropped
  by \<open>runtime_to = 100000\<close>, a vote average of 0 by \<open>rating_from = 0\<close>.
\<close>

theorem zero_value_fails_active_bound:
  "((f_rating_from f \<noteq> None \<or> f_rating_to f \<noteq> None) \<and> vote_average m = Some 0
      \<longrightarrow> m \<notin> set (apply_filters ms (Some f))) \<and>
   ((f_runtime_from f \<noteq> None \<or> f_runtime_to f \<noteq> None) \<and> runtime m = Some 0
      \<longrightarrow> m \<notin> set (apply_filters ms (Some f))) \<and>
   ((f_personal_rating_from f \<noteq> None \<or> f_personal_rating_to f \<noteq> None) \<and> personal_rating m = Some 0
      \<longrightarrow> m \<notin> set (apply_filters ms (Some f)))"
proof -
  have "vote_average m \<noteq> Some 0"
    if "m \<in> set (apply_filters ms (Some f))" "f_rating_from f \<noteq> None \<or> f_rating_to f \<noteq> None"
    using that keeps_rating [of f m] by (auto simp: set_apply_filters truthy_num_def)
  moreover have "runtime m \<noteq> Some 0"
    if "m \<in> set (apply_filters ms (Some f))" "f_runtime_from f \<noteq> None \<or> f_runtime_to f \<noteq> None"
    using that keeps_runtime [of f m] by (auto simp: set_apply_filters truthy_num_def)
  moreover have "personal_rating m \<noteq> Some 0"
    if "m \<in> set (apply_filters ms (Some f))"
       "f_personal_rating_from f \<noteq> None \<or> f_personal_rating_to f \<noteq> None"
    using that keeps_personal [of f m] by (auto simp: set_apply_filters truthy_num_def)
  ultimately show ?thesis
    by blast
qed

theorem zero_value_fails_active_bound_witness:
  "f_rating_from wide_filters = Some 0 \<and> vote_average zero_movie = Some 0 \<and> (0::real) \<ge> 0 \<and>
   f_runtime_to wide_filters = Some 100000 \<and> runtime zero_movie = Some 0 \<and> (0::int) \<le> 100000 \<and>
   f_personal_rating_from wide_filters = Some 0 \<and> personal_rating zero_movie = Some 0 \<and>
   zero_movie \<notin> set (apply_filters [zero_movie] (Some wide_filters))"
  using zero_value_fails_active_bound [of wide_filters zero_movie "[zero_movie]"]
  by (simp add: wide_filters_def no_filters_def zero_movie_def test_movie_def new_movie_def test_command_def)

text \<open>
  Claim C9. Without criteria, and with criteria of which no group is active,
  \<open>_apply_filters\<close> returns its input list; with any criteria its result is a
  subsequence of the input, so the records keep their relative order.
\<close>

theorem no_criteria_identity_and_order:
  "apply_filters ms None = ms \<and>
   (\<not> truthy_str (f_search f) \<and> \<not> truthy_list (f_genres f) \<and>
    \<not> truthy_num (f_year_from f) \<and> \<not> truthy_num (f_year_to f) \<and>
    f_rating_from f = None \<and> f_rating_to f = None \<and>
    f_runtime_from f = None \<and> f_runtime_to f = None \<and>
    \<not> truthy_str (f_language f) \<and> f_is_favorite f = None \<and>
    f_personal_rating_from f = None \<and> f_personal_rating_to f = None
      \<longrightarrow> apply_filters ms (Some f) = ms) \<and>
   apply_filters ms (Some no_filters) = ms \<and>
   subseq (apply_filters ms filters) ms"
proof -
  have a: "apply_filters ms None = ms"
    by (simp add: apply_filters_def)
  have b: "apply_filters ms (Some f) = ms"
    if "\<not> truthy_str (f_search f)" "\<not> truthy_list (f_genres f)"
       "\<not> truthy_num (f_year_from f)" "\<not> truthy_num (f_year_to f)"
       "f_rating_from f = None" "f_rating_to f = None"
       "f_runtime_from f = None" "f_runtime_to f = None"
       "\<not> truthy_str (f_language f)" "f_is_favorite f = None"
       "f_personal_rating_from f = None" "f_personal_rating_to f = None"
    for f
    using that by (simp add: apply_filters_keeps keeps_def)
  have c: "apply_filters ms (Some no_filters) = ms"
    by (rule b) (simp_all add: no_filters_def truthy_str_def truthy_list_def truthy_num_def)
  have d: "subseq (apply_filters ms filters) ms"
    by (cases filters) (simp_all add: a apply_filters_keeps)
  from a b [of f] c d show ?thesis by blast
qed

theorem no_criteria_identity_and_order_witness:
  "\<not> truthy_str (f_search no_filters) \<and> \<not> truthy_list (f_genres no_filters) \<and>
   \<not> truthy_num (f_year_from no_filters) \<and> \<not> truthy_num (f_year_to no_filters) \<and>
   f_rating_from no_filters = None \<and> f_rating_to no_filters = None \<and>
   f_runtime_from no_filters = None \<and> f_runtime_to no_filters = None \<and>
   \<not> truthy_str (f_language no_filters) \<and> f_is_favorite no_filters = None \<and>
   f_personal_rating_from no_filters = None \<and> f_personal_rating_to no_filters = None \<and>
   apply_filters two_movies (Some no_filters) = two_movies \<and>
   apply_filters two_movies None = two_movies \<and>
   subseq (apply_filters two_movies (Some wide_filters)) two_movies"
  using no_criteria_identity_and_order [of two_movies no_filters "Some wide_filters"]
  by (simp add: no_filters_def truthy_str_def truthy_list_def truthy_num_def)



lemma check_year_filter_iff:
  "check_year_filter rd yf yt \<longleftrightarrow>
     (case release_year rd of None \<Rightarrow> False
      | Some y \<Rightarrow> (truthy_num yf \<longrightarrow> the yf \<le> y) \<and> (truthy_num yt \<longrightarrow> y \<le> the yt))"
  by (auto simp: check_year_filter_def release_year_def split: option.splits)

lemma year_filters_keeps:
  "keeps (year_filters yf yt) m \<longleftrightarrow>
     (truthy_num yf \<or> truthy_num yt \<longrightarrow> check_year_filter (release_date m) yf yt)"
  by (auto simp: keeps_def year_filters_def no_filters_def truthy_str_def truthy_list_def)

text \<open>
  What \<open>int\<close> accepts around the year, on the inputs where it is easy to go wrong:
  an information separator (code points 28 to 31) before or after the digits makes
  the date unparseable, so the record is excluded by an active year bound; a space, a
  no-break space or a carriage return around the digits is dropped. A run of more
  than \<open>int_max_str_digits\<close> digits is unparseable.
\<close>

lemma release_year_separator:
  "release_year (Some (CHR 0x1C # ''2022-05-01'')) = None \<and>
   release_year (Some (''2022'' @ [CHR 0x1F] @ ''-05-01'')) = None \<and>
   release_year (Some (CHR 0x20 # ''2022-05-01'')) = Some 2022 \<and>
   release_year (Some (CHR 0xA0 # ''2022'' @ [CHR 0x0D] @ ''-05-01'')) = Some 2022 \<and>
   dated (CHR 0x1C # ''2022-05-01'')
     \<notin> set (apply_filters [dated (CHR 0x1C # ''2022-05-01'')] (Some (year_filters (Some 2020) (Some 2024))))"
  by (simp add: apply_filters_keeps year_filters_keeps check_year_filter_iff)
     (simp add: release_year_def dated_def truthy_str_def truthy_num_def split_first_def py_int_def
        strip_def is_space_def is_digit_def digit_val_def int_max_str_digits_def Let_def)

lemma py_int_digit_limit:
  assumes "is_digit c" "int_max_str_digits < n"
  shows "py_int (replicate n c) = None"
proof -
  have ns: "\<not> is_space c" using assms(1) by (auto simp: is_digit_def is_space_def Let_def)
  have sg: "c \<noteq> CHR ''+''" "c \<noteq> CHR ''-''" using assms(1) by (auto simp: is_digit_def)
  from assms(2) obtain k where n: "n = Suc k" by (cases n) auto
  have st: "strip (replicate n c) = c # replicate k c"
    using ns by (simp add: strip_def n del: replicate_Suc) (simp add: n)
  have "length (filter is_digit (c # replicate k c)) = n"
    using assms(1) by (simp add: n)
  with assms(2) st sg show ?thesis
    by (simp add: py_int_def Let_def del: replicate_Suc)
qed

text \<open>
  Claim C5 as stated fails for a bound of 0. With \<open>year_from = 2000\<close> and
  \<open>year_to = 0\<close> the record dated 2022-05-01 is kept although 2022 exceeds the upper
  bound given; with \<open>year_from = 0\<close> alone a record with an empty release date is
  kept.
\<close>

theorem year_zero_bound_counterexample:
  "f_year_from (year_filters (Some 2000) (Some 0)) = Some 2000 \<and>
   f_year_to (year_filters (Some 2000) (Some 0)) = Some 0 \<and>
   release_year (release_date (dated ''2022-05-01'')) = Some 2022 \<and>
   \<not> (2022 \<le> (0::int)) \<and>
   apply_filters [dated ''2022-05-01''] (Some (year_filters (Some 2000) (Some 0)))
     = [dated ''2022-05-01''] \<and>
   f_year_from (year_filters (Some 0) None) = Some 0 \<and>
   release_year (release_date (dated '''')) = None \<and>
   apply_filters [dated ''''] (Some (year_filters (Some 0) None)) = [dated '''']"
  by (simp add: apply_filters_keeps year_filters_keeps check_year_filter_iff)
     (simp add: year_filters_def no_filters_def release_year_def dated_def truthy_str_def
        truthy_num_def split_first_def py_int_def strip_def is_space_def is_digit_def digit_val_def
        int_max_str_digits_def Let_def)

text \<open>
  Claim C5, amended. A year bound is in force when it is neither \<open>None\<close> nor 0. With
  year bounds as the only criteria, a record is kept exactly when no bound is in
  force, or its release date yields a year and that year satisfies every bound in
  force. With any criteria, a record in the result has a release date that yields a
  year within the bounds in force as soon as one of them is; a record whose date is
  absent, empty or unparseable is then excluded.
\<close>

theorem year_filter_nonzero_bounds:
  "(m \<in> set (apply_filters ms (Some (year_filters yf yt))) \<longleftrightarrow>
      m \<in> set ms \<and>
      (truthy_num yf \<or> truthy_num yt \<longrightarrow>
        (case release_year (release_date m) of None \<Rightarrow> False
         | Some y \<Rightarrow> (truthy_num yf \<longrightarrow> the yf \<le> y) \<and> (truthy_num yt \<longrightarrow> y \<le> the yt)))) \<and>
   ((truthy_num (f_year_from f) \<or> truthy_num (f_year_to f)) \<and>
    m \<in> set (apply_filters ms (Some f)) \<longrightarrow>
      (case release_year (release_date m) of None \<Rightarrow> False
       | Some y \<Rightarrow> (truthy_num (f_year_from f) \<longrightarrow> the (f_year_from f) \<le> y) \<and>
                  (truthy_num (f_year_to f) \<longrightarrow> y \<le> the (f_year_to f))))"
proof -
  have a: "m \<in> set (apply_filters ms (Some (year_filters yf yt))) \<longleftrightarrow>
      m \<in> set ms \<and>
      (truthy_num yf \<or> truthy_num yt \<longrightarrow>
        (case release_year (release_date m) of None \<Rightarrow> False
         | Some y \<Rightarrow> (truthy_num yf \<longrightarrow> the yf \<le> y) \<and> (truthy_num yt \<longrightarrow> y \<le> the yt)))"
    by (simp only: set_apply_filters year_filters_keeps check_year_filter_iff)
  have b: "case release_year (release_date m) of None \<Rightarrow> False
       | Some y \<Rightarrow> (truthy_num (f_year_from f) \<longrightarrow> the (f_year_from f) \<le> y) \<and>
                  (truthy_num (f_year_to f) \<longrightarrow> y \<le> the (f_year_to f))"
    if "truthy_num (f_year_from f) \<or> truthy_num (f_year_to f)"
       "m \<in> set (apply_filters ms (Some f))"
    using that keeps_year [of f m]
    by (simp only: set_apply_filters check_year_filter_iff)
  from a b show ?thesis by blast
qed

theorem year_filter_nonzero_bounds_witness:
  "truthy_num (Some (2020::int)) \<and> truthy_num (Some (2024::int)) \<and>
   truthy_num (f_year_from (year_filters (Some 2020) (Some 2024))) \<and>
   dated ''2022-05-01'' \<in> set three_dates \<and>
   release_year (release_date (dated ''2022-05-01'')) = Some 2022 \<and>
   dated ''2022-05-01'' \<in> set (apply_filters three_dates (Some (year_filters (Some 2020) (Some 2024)))) \<and>
   release_year (release_date (dated '''')) = None \<and>
   dated '''' \<notin> set (apply_filters three_dates (Some (year_filters (Some 2020) (Some 2024)))) \<and>
   release_year (release_date (dated ''May 2022'')) = None \<and>
   dated ''May 2022'' \<notin> set (apply_filters three_dates (Some (year_filters (Some 2020) (Some 2024))))"
proof -
  have y1: "release_year (release_date (dated ''2022-05-01'')) = Some 2022"
    and y2: "release_year (release_date (dated '''')) = None"
    and y3: "release_year (release_date (dated ''May 2022'')) = None"
    by (simp_all add: release_year_def dated_def truthy_str_def split_first_def py_int_def
          strip_def is_space_def is_digit_def digit_val_def int_max_str_digits_def Let_def)
  have t: "truthy_num (Some (2020::int))" "truthy_num (Some (2024::int))"
    "truthy_num (f_year_from (year_filters (Some 2020) (Some 2024)))"
    by (simp_all add: truthy_num_def year_filters_def)
  have s: "dated ''2022-05-01'' \<in> set three_dates"
    by (simp add: three_dates_def)
  show ?thesis
    using year_filter_nonzero_bounds [of "dated ''2022-05-01''" three_dates "Some 2020" "Some 2024"
            "year_filters (Some 2020) (Some 2024)"]
          year_filter_nonzero_bounds [of "dated ''''" three_dates "Some 2020" "Some 2024"
            "year_filters (Some 2020) (Some 2024)"]
          year_filter_nonzero_bounds [of "dated ''May 2022''" three_dates "Some 2020" "Some 2024"
            "year_filters (Some 2020) (Some 2024)"]
          y1 y2 y3 t s
    by simp
qed

section \<open>Properties of the store\<close>

lemma ensure_loaded_loaded: "loaded s \<Longrightarrow> ensure_loaded p src s = s"
  by (simp add: ensure_loaded_def)

lemma update_loop_absent: "i \<notin> movie_id ` set ms \<Longrightarrow> update_loop i command ms = (False, ms)"
  by (induction ms) auto

lemma update_loop_first:
  "\<forall>x\<in>set pre. movie_id x \<noteq> i \<Longrightarrow> movie_id m = i \<Longrightarrow>
   update_loop i command (pre @ m # post) = (True, pre @ apply_update command m # post)"
  by (induction pre) auto

lemma first_occurrence:
  "i \<in> movie_id ` set ms \<Longrightarrow>
   \<exists>pre m post. ms = pre @ m # post \<and> movie_id m = i \<and> (\<forall>x\<in>set pre. movie_id x \<noteq> i)"
proof -
  assume "i \<in> movie_id ` set ms"
  then have "\<exists>x\<in>set ms. movie_id x = i" by auto
  then obtain pre m post where "ms = pre @ m # post" "movie_id m = i" "\<forall>x\<in>set pre. \<not> movie_id x = i"
    using split_list_first_prop [of ms "\<lambda>x. movie_id x = i"] by blast
  then show ?thesis by blast
qed

lemma first_occurrence_unique:
  "pre @ m # post = pre' @ m' # post' \<Longrightarrow> movie_id m = i \<Longrightarrow> movie_id m' = i \<Longrightarrow>
   \<forall>x\<in>set pre. movie_id x \<noteq> i \<Longrightarrow> \<forall>x\<in>set pre'. movie_id x \<noteq> i \<Longrightarrow>
   pre = pre' \<and> m = m' \<and> post = post'"
proof (induction pre arbitrary: pre')
  case Nil
  then show ?case by (cases pre') auto
next
  case (Cons a pre)
  then show ?case by (cases pre') auto
qed

lemma apply_update_favorite: "apply_update (favorite_command b) m = m\<lparr>is_favorite := b\<rparr>"
  by (simp add: apply_update_def favorite_command_def)

lemma apply_update_fields:
  "apply_update command m =
     m\<lparr>title := (case u_title command of None \<Rightarrow> title m | Some v \<Rightarrow> Some v),
       overview := (case u_overview command of None \<Rightarrow> overview m | Some v \<Rightarrow> Some v),
       is_favorite := (case u_is_favorite command of None \<Rightarrow> is_favorite m | Some v \<Rightarrow> v),
       personal_rating := (case u_personal_rating command of None \<Rightarrow> personal_rating m | Some v \<Rightarrow> Some v),
       personal_notes := (case u_personal_notes command of None \<Rightarrow> personal_notes m | Some v \<Rightarrow> Some v)\<rparr>"
  by (simp add: apply_update_def split: option.splits)

text \<open>
  Claim C7. When a record of the store has the given identifier, \<open>update_movie\<close> with
  a command that carries \<open>is_favorite\<close> alone returns \<open>True\<close> and changes the
  favorite flag of the first such record and nothing else: the other fields of that
  record, the records before and after it, and the rest of the store are as they
  were. When no record has the identifier, \<open>update_movie\<close> returns \<open>False\<close> and the
  store is unchanged, for any command.
\<close>

theorem favorite_update_frame:
  "(i \<in> movie_id ` set (movies (ensure_loaded p src s)) \<longrightarrow>
      (\<exists>pre m post.
         movies (ensure_loaded p src s) = pre @ m # post \<and> movie_id m = i \<and>
         (\<forall>x\<in>set pre. movie_id x \<noteq> i) \<and>
         update_movie p src i (favorite_command b) s =
           (True, (ensure_loaded p src s)\<lparr>movies := pre @ m\<lparr>is_favorite := b\<rparr> # post\<rparr>))) \<and>
   (i \<notin> movie_id ` set (movies (ensure_loaded p src s)) \<longrightarrow>
      update_movie p src i command s = (False, ensure_loaded p src s)) \<and>
   (loaded s \<and> i \<notin> movie_id ` set (movies s) \<longrightarrow> update_movie p src i command s = (False, s))"
proof -
  let ?s1 = "ensure_loaded p src s"
  have a: "\<exists>pre m post.
         movies ?s1 = pre @ m # post \<and> movie_id m = i \<and> (\<forall>x\<in>set pre. movie_id x \<noteq> i) \<and>
         update_movie p src i (favorite_command b) s =
           (True, ?s1\<lparr>movies := pre @ m\<lparr>is_favorite := b\<rparr> # post\<rparr>)"
    if "i \<in> movie_id ` set (movies ?s1)"
  proof -
    from first_occurrence [OF that] obtain pre m post
      where d: "movies ?s1 = pre @ m # post" "movie_id m = i" "\<forall>x\<in>set pre. movie_id x \<noteq> i"
      by blast
    have "update_movie p src i (favorite_command b) s =
           (True, ?s1\<lparr>movies := pre @ m\<lparr>is_favorite := b\<rparr> # post\<rparr>)"
      by (simp add: update_movie_def d(1) update_loop_first [OF d(3) d(2)] apply_update_favorite)
    with d show ?thesis by blast
  qed
  have b: "update_movie p src i command s = (False, ?s1)"
    if "i \<notin> movie_id ` set (movies ?s1)"
    by (simp add: update_movie_def update_loop_absent [OF that])
  have c: "update_movie p src i command s = (False, s)"
    if "loaded s" "i \<notin> movie_id ` set (movies s)"
    using that by (simp add: update_movie_def ensure_loaded_loaded update_loop_absent)
  from a b c show ?thesis by blast
qed

theorem favorite_update_frame_witness:
  "2 \<in> movie_id ` set (movies (ensure_loaded from_csv_row_model missing_source two_db)) \<and>
   7 \<notin> movie_id ` set (movies (ensure_loaded from_csv_row_model missing_source two_db)) \<and>
   loaded two_db \<and> 7 \<notin> movie_id ` set (movies two_db) \<and>
   update_movie from_csv_row_model missing_source 2 (favorite_command True) two_db =
     (True, two_db\<lparr>movies := [test_movie, zero_movie\<lparr>movie_id := 2, is_favorite := True\<rparr>]\<rparr>) \<and>
   update_movie from_csv_row_model missing_source 7 (favorite_command True) two_db = (False, two_db)"
proof -
  have l: "ensure_loaded from_csv_row_model missing_source two_db = two_db"
    by (simp add: ensure_loaded_def two_db_def loaded_db_def)
  have ids: "movie_id ` set (movies two_db) = {1, 2}"
    by (auto simp: two_db_def loaded_db_def two_movies_def zero_movie_def test_movie_def new_movie_def)
  have m: "movies two_db = [test_movie, zero_movie\<lparr>movie_id := 2\<rparr>]"
    by (simp add: two_db_def loaded_db_def two_movies_def)
  have t: "movie_id test_movie = 1"
    by (simp add: test_movie_def new_movie_def)
  have ld: "loaded two_db"
    by (simp add: two_db_def loaded_db_def)
  from favorite_update_frame [of 2 from_csv_row_model missing_source two_db True "favorite_command True"]
  obtain pre m' post where d: "movies two_db = pre @ m' # post" "movie_id m' = 2"
      "\<forall>x\<in>set pre. movie_id x \<noteq> 2"
      "update_movie from_csv_row_model missing_source 2 (favorite_command True) two_db =
         (True, two_db\<lparr>movies := pre @ m'\<lparr>is_favorite := True\<rparr> # post\<rparr>)"
    unfolding l ids by auto
  have "pre = [test_movie] \<and> m' = zero_movie\<lparr>movie_id := 2\<rparr> \<and> post = []"
    using first_occurrence_unique [of pre m' post "[test_movie]" "zero_movie\<lparr>movie_id := 2\<rparr>" "[]" 2]
      d(1,2,3) m t by simp
  with d(4) have u: "update_movie from_csv_row_model missing_source 2 (favorite_command True) two_db =
     (True, two_db\<lparr>movies := [test_movie, zero_movie\<lparr>movie_id := 2, is_favorite := True\<rparr>]\<rparr>)"
    by simp
  from favorite_update_frame [of 7 from_csv_row_model missing_source two_db True "favorite_command True"]
  have n: "update_movie from_csv_row_model missing_source 7 (favorite_command True) two_db = (False, two_db)"
    unfolding l ids by simp
  from u n l ids ld show ?thesis by simp
qed

text \<open>
  Claim C2 as stated fails: a command whose \<open>personal_rating\<close> and \<open>personal_notes\<close>
  are \<open>None\<close>, which is what \<open>update_movie\<close> reads for a field sent as \<open>null\<close>,
  leaves the stored rating and notes in place.
\<close>

theorem null_does_not_clear_counterexample:
  "u_personal_rating null_command = None \<and> u_personal_notes null_command = None \<and>
   movies rated_db = [rated_movie] \<and> movie_id rated_movie = 1 \<and>
   personal_rating rated_movie = Some 4 \<and> personal_notes rated_movie = Some ''seen twice'' \<and>
   update_movie from_csv_row_model missing_source 1 null_command rated_db = (True, rated_db)"
  by (simp add: update_movie_def ensure_loaded_def rated_db_def loaded_db_def rated_movie_def
        test_movie_def new_movie_def null_command_def apply_update_def)

text \<open>
  Claim C2, amended. For an identifier that a record of the store has, \<open>update_movie\<close>
  returns \<open>True\<close> and overwrites, in the first such record, exactly the fields whose
  value in the command is not \<open>None\<close>; a field that is \<open>None\<close> in the command keeps
  its stored value.
\<close>

theorem update_applies_non_null_fields:
  "i \<in> movie_id ` set (movies (ensure_loaded p src s)) \<longrightarrow>
     (\<exists>pre m post.
        movies (ensure_loaded p src s) = pre @ m # post \<and> movie_id m = i \<and>
        (\<forall>x\<in>set pre. movie_id x \<noteq> i) \<and>
        update_movie p src i command s =
          (True, (ensure_loaded p src s)\<lparr>movies := pre @
             m\<lparr>title := (case u_title command of None \<Rightarrow> title m | Some v \<Rightarrow> Some v),
               overview := (case u_overview command of None \<Rightarrow> overview m | Some v \<Rightarrow> Some v),
               is_favorite := (case u_is_favorite command of None \<Rightarrow> is_favorite m | Some v \<Rightarrow> v),
               personal_rating :=
                 (case u_personal_rating command of None \<Rightarrow> personal_rating m | Some v \<Rightarrow> Some v),
               personal_notes :=
                 (case u_personal_notes command of None \<Rightarrow> personal_notes m | Some v \<Rightarrow> Some v)\<rparr>
             # post\<rparr>))"
proof
  let ?s1 = "ensure_loaded p src s"
  assume "i \<in> movie_id ` set (movies ?s1)"
  from first_occurrence [OF this] obtain pre m post
    where d: "movies ?s1 = pre @ m # post" "movie_id m = i" "\<forall>x\<in>set pre. movie_id x \<noteq> i"
    by blast
  have "update_movie p src i command s = (True, ?s1\<lparr>movies := pre @ apply_update command m # post\<rparr>)"
    by (simp add: update_movie_def d(1) update_loop_first [OF d(3) d(2)])
  with d show "\<exists>pre m post.
        movies ?s1 = pre @ m # post \<and> movie_id m = i \<and>
        (\<forall>x\<in>set pre. movie_id x \<noteq> i) \<and>
        update_movie p src i command s =
          (True, ?s1\<lparr>movies := pre @
             m\<lparr>title := (case u_title command of None \<Rightarrow> title m | Some v \<Rightarrow> Some v),
               overview := (case u_overview command of None \<Rightarrow> overview m | Some v \<Rightarrow> Some v),
               is_favorite := (case u_is_favorite command of None \<Rightarrow> is_favorite m | Some v \<Rightarrow> v),
               personal_rating :=
                 (case u_personal_rating command of None \<Rightarrow> personal_rating m | Some v \<Rightarrow> Some v),
               personal_notes :=
                 (case u_personal_notes command of None \<Rightarrow> personal_notes m | Some v \<Rightarrow> Some v)\<rparr>
             # post\<rparr>)"
    unfolding apply_update_fields [symmetric] by blast
qed

theorem update_applies_non_null_fields_witness:
  "1 \<in> movie_id ` set (movies (ensure_loaded from_csv_row_model missing_source rated_db)) \<and>
   update_movie from_csv_row_model missing_source 1 test_update rated_db =
     (True, rated_db\<lparr>movies :=
        [rated_movie\<lparr>title := Some ''Updated Test Movie'', is_favorite := True\<rparr>]\<rparr>) \<and>
   personal_rating (rated_movie\<lparr>title := Some ''Updated Test Movie'', is_favorite := True\<rparr>) = Some 4"
proof -
  have l: "ensure_loaded from_csv_row_model missing_source rated_db = rated_db"
    by (simp add: ensure_loaded_def rated_db_def loaded_db_def)
  have m: "movies rated_db = [rated_movie]"
    by (simp add: rated_db_def loaded_db_def)
  have t: "movie_id rated_movie = 1"
    by (simp add: rated_movie_def test_movie_def new_movie_def)
  from update_applies_non_null_fields [of 1 from_csv_row_model missing_source rated_db test_update]
  obtain pre m' post where d: "movies rated_db = pre @ m' # post" "movie_id m' = 1"
      "\<forall>x\<in>set pre. movie_id x \<noteq> 1"
      "update_movie from_csv_row_model missing_source 1 test_update rated_db =
         (True, rated_db\<lparr>movies := pre @
             m'\<lparr>title := (case u_title test_update of None \<Rightarrow> title m' | Some v \<Rightarrow> Some v),
               overview := (case u_overview test_update of None \<Rightarrow> overview m' | Some v \<Rightarrow> Some v),
               is_favorite := (case u_is_favorite test_update of None \<Rightarrow> is_favorite m' | Some v \<Rightarrow> v),
               personal_rating :=
                 (case u_personal_rating test_update of None \<Rightarrow> personal_rating m' | Some v \<Rightarrow> Some v),
               personal_notes :=
                 (case u_personal_notes test_update of None \<Rightarrow> personal_notes m' | Some v \<Rightarrow> Some v)\<rparr>
             # post\<rparr>)"
    unfolding l using m t by auto
  have "pre = [] \<and> m' = rated_movie \<and> post = []"
    using first_occurrence_unique [of pre m' post "[]" rated_movie "[]" 1] d(1,2,3) m t by simp
  with d(4) have "update_movie from_csv_row_model missing_source 1 test_update rated_db =
     (True, rated_db\<lparr>movies :=
        [rated_movie\<lparr>title := Some ''Updated Test Movie'', is_favorite := True\<rparr>]\<rparr>)"
    by (simp add: test_update_def)
  moreover have "personal_rating (rated_movie\<lparr>title := Some ''Updated Test Movie'', is_favorite := True\<rparr>) = Some 4"
    by (simp add: rated_movie_def)
  ultimately show ?thesis using l m t by simp
qed

section \<open>Lazy loading and pagination\<close>

lemma ensure_loaded_is_loaded: "loaded (ensure_loaded p src s)"
proof (cases "loaded s")
  case True
  then show ?thesis by (simp add: ensure_loaded_def)
next
  case False
  then show ?thesis
    by (auto simp: ensure_loaded_def split: sum.splits)
qed

lemma ensure_loaded_once: "ensure_loaded p' src' (ensure_loaded p src s) = ensure_loaded p src s"
  by (rule ensure_loaded_loaded) (rule ensure_loaded_is_loaded)

lemma py_slice_nonneg:
  assumes "0 \<le> st" "0 \<le> n"
  shows "py_slice xs st (st + n) = take (nat n) (drop (nat st) xs)"
proof -
  let ?len = "int (length xs)"
  have eq: "py_slice xs st (st + n) = take (nat (min (st + n) ?len - min st ?len)) (drop (nat (min st ?len)) xs)"
    using assms by (simp add: py_slice_def Let_def)
  show ?thesis
  proof (cases "st \<le> ?len")
    case True
    then have "min st ?len = st" by simp
    moreover have "nat (min (st + n) ?len - st) = min (nat n) (length (drop (nat st) xs))"
      using True assms by (simp add: min_def) linarith
    ultimately show ?thesis
      unfolding eq by (simp only: take_all_iff min.commute) (simp add: min_def)
  next
    case False
    then have "drop (nat st) xs = []" "drop (nat (min st ?len)) xs = []"
      using assms by simp_all
    then show ?thesis unfolding eq by simp
  qed
qed

lemma concat_pages_nat:
  "concat (map (\<lambda>k. take n (drop (k * n) xs)) [0..<p]) = take (p * n) xs"
proof (induction p)
  case 0
  then show ?case by simp
next
  case (Suc p)
  have "take (p * n + n) xs = take (p * n) xs @ take n (drop (p * n) xs)"
    by (rule take_add)
  moreover have "Suc p * n = p * n + n" by simp
  ultimately have "take (Suc p * n) xs = take (p * n) xs @ take n (drop (p * n) xs)"
    by (simp only:)
  with Suc show ?case by (simp del: mult_Suc)
qed

lemma upto_as_upt: "0 \<le> k \<Longrightarrow> [1..k] = map (\<lambda>j. int j + 1) [0..<nat k]"
proof (induction "nat k" arbitrary: k)
  case 0
  then show ?case by simp
next
  case (Suc n)
  then have k: "k = int n + 1" by linarith
  have "[1..int n + 1] = [1..int n] @ [int n + 1]"
    using upto_rec2 [of 1 "int n + 1"] by simp
  moreover have "[1..int n] = map (\<lambda>j. int j + 1) [0..<nat (int n)]"
    using Suc(1) [of "int n"] by simp
  moreover have "nat (int n + 1) = Suc n" by simp
  ultimately show ?case using k by simp
qed

lemma page_count_bounds:
  assumes "0 < n" "1 \<le> sz"
  shows "(page_count n sz - 1) * sz < n \<and> n \<le> page_count n sz * sz"
proof -
  let ?x = "real_of_int n / real_of_int sz"
  have sz: "0 < real_of_int sz" using assms by simp
  have pc: "page_count n sz = \<lceil>?x\<rceil>" using assms by (simp add: page_count_def)
  have "?x \<le> of_int \<lceil>?x\<rceil>" by (rule le_of_int_ceiling)
  then have "real_of_int n \<le> of_int \<lceil>?x\<rceil> * real_of_int sz"
    by (simp only: pos_divide_le_eq [OF sz])
  then have up: "n \<le> \<lceil>?x\<rceil> * sz"
    by (metis of_int_le_iff of_int_mult)
  have "of_int \<lceil>?x\<rceil> - 1 < ?x" by linarith
  then have "(of_int \<lceil>?x\<rceil> - 1) * real_of_int sz < real_of_int n"
    by (simp only: pos_less_divide_eq [OF sz])
  then have "real_of_int ((\<lceil>?x\<rceil> - 1) * sz) < real_of_int n" by simp
  then have lo: "(\<lceil>?x\<rceil> - 1) * sz < n" by (simp only: of_int_less_iff)
  from up lo pc show ?thesis by simp
qed

lemma page_count_pos: "0 \<le> n \<Longrightarrow> 1 \<le> sz \<Longrightarrow> 1 \<le> page_count n sz"
proof (cases "n = 0")
  case True
  then show ?thesis by (simp add: page_count_def)
next
  case False
  assume "0 \<le> n" "1 \<le> sz"
  with False have n: "0 < n" by simp
  from page_count_bounds [OF n \<open>1 \<le> sz\<close>] have "(page_count n sz - 1) * sz < n \<and> n \<le> page_count n sz * sz" .
  then have "0 < page_count n sz * sz" using n by linarith
  then show ?thesis using \<open>1 \<le> sz\<close>
    by (smt (verit) mult_nonpos_nonneg)
qed

lemma concat_pages:
  assumes "1 \<le> sz" "int (length xs) \<le> k * sz" "0 \<le> k"
  shows "concat (map (\<lambda>page. py_slice xs ((page - 1) * sz) ((page - 1) * sz + sz)) [1..k]) = xs"
proof -
  have "map (\<lambda>page. py_slice xs ((page - 1) * sz) ((page - 1) * sz + sz)) [1..k]
      = map (\<lambda>j. take (nat sz) (drop (j * nat sz) xs)) [0..<nat k]"
  proof -
    have "py_slice xs ((int j + 1 - 1) * sz) ((int j + 1 - 1) * sz + sz) = take (nat sz) (drop (j * nat sz) xs)" for j
    proof -
      have "nat (int j * sz) = j * nat sz" using assms(1) by (simp add: nat_mult_distrib)
      then show ?thesis using py_slice_nonneg [of "int j * sz" sz xs] assms(1) by simp
    qed
    then show ?thesis
      unfolding upto_as_upt [OF assms(3)] by (simp add: comp_def)
  qed
  then have "concat (map (\<lambda>page. py_slice xs ((page - 1) * sz) ((page - 1) * sz + sz)) [1..k])
      = take (nat k * nat sz) xs"
    by (simp only: concat_pages_nat)
  moreover have "length xs \<le> nat k * nat sz"
  proof -
    have "int (nat k * nat sz) = k * sz" using assms by simp
    with assms(2) show ?thesis by linarith
  qed
  ultimately show ?thesis by simp
qed

lemma get_movies_paginated_eq:
  assumes "1 \<le> page" "1 \<le> sz"
  shows "get_movies_paginated p src page sz filters s =
     ((take (nat sz) (drop (nat ((page - 1) * sz)) (apply_filters (movies (ensure_loaded p src s)) filters)),
       int (length (apply_filters (movies (ensure_loaded p src s)) filters))),
      ensure_loaded p src s)"
proof -
  have "0 \<le> (page - 1) * sz" using assms by simp
  then show ?thesis
    using assms py_slice_nonneg [of "(page - 1) * sz" sz]
    by (simp add: get_movies_paginated_def Let_def)
qed

text \<open>
  Claim C3. For a page and a size of at least 1, \<open>get_movies_paginated\<close> returns
  the \<open>size\<close> records of the filtered list that follow the first
  \<open>(page - 1) * size\<close>, with the length of the filtered list as total; the page has
  at most \<open>size\<close> records and is empty when the start lies at or beyond the end.
  The page count of \<open>get_movies\<close> is 1 for an empty filtered list and otherwise
  the ceiling of total over size, which is the least number of pages that cover the
  list. The pages 1 to the page count, one after the other, are the filtered list.
\<close>

theorem pagination_slices:
  assumes "1 \<le> page" and "1 \<le> sz"
  shows "get_movies_paginated p src page sz filters s =
           ((take (nat sz) (drop (nat ((page - 1) * sz))
               (apply_filters (movies (ensure_loaded p src s)) filters)),
             int (length (apply_filters (movies (ensure_loaded p src s)) filters))),
            ensure_loaded p src s) \<and>
         int (length (fst (fst (get_movies_paginated p src page sz filters s)))) \<le> sz \<and>
         (int (length (apply_filters (movies (ensure_loaded p src s)) filters)) \<le> (page - 1) * sz
            \<longrightarrow> fst (fst (get_movies_paginated p src page sz filters s)) = []) \<and>
         page_count (int (length (apply_filters (movies (ensure_loaded p src s)) filters))) sz =
           (if apply_filters (movies (ensure_loaded p src s)) filters = [] then 1
            else \<lceil>real (length (apply_filters (movies (ensure_loaded p src s)) filters)) / real_of_int sz\<rceil>) \<and>
         (apply_filters (movies (ensure_loaded p src s)) filters \<noteq> [] \<longrightarrow>
            (page_count (int (length (apply_filters (movies (ensure_loaded p src s)) filters))) sz - 1) * sz
              < int (length (apply_filters (movies (ensure_loaded p src s)) filters)) \<and>
            int (length (apply_filters (movies (ensure_loaded p src s)) filters))
              \<le> page_count (int (length (apply_filters (movies (ensure_loaded p src s)) filters))) sz * sz) \<and>
         (sz \<le> 100 \<longrightarrow>
            get_movies p src page sz filters s =
              (Inr \<lparr>r_items = fst (fst (get_movies_paginated p src page sz filters s)),
                    r_total = int (length (apply_filters (movies (ensure_loaded p src s)) filters)),
                    r_page = page, r_size = sz,
                    r_pages = page_count (int (length (apply_filters (movies (ensure_loaded p src s)) filters))) sz\<rparr>,
               ensure_loaded p src s)) \<and>
         concat (map (\<lambda>q. fst (fst (get_movies_paginated p src q sz filters s)))
                   [1..page_count (int (length (apply_filters (movies (ensure_loaded p src s)) filters))) sz])
           = apply_filters (movies (ensure_loaded p src s)) filters"
proof -
  let ?s1 = "ensure_loaded p src s"
  let ?fl = "apply_filters (movies ?s1) filters"
  let ?n = "int (length ?fl)"
  let ?pc = "page_count ?n sz"
  note eq = get_movies_paginated_eq [OF assms, of p src filters s]
  have c1: "get_movies_paginated p src page sz filters s =
      ((take (nat sz) (drop (nat ((page - 1) * sz)) ?fl), ?n), ?s1)"
    by (rule eq)
  have c2: "int (length (fst (fst (get_movies_paginated p src page sz filters s)))) \<le> sz"
    unfolding eq using assms by simp
  have c3: "fst (fst (get_movies_paginated p src page sz filters s)) = []"
    if "?n \<le> (page - 1) * sz"
    unfolding eq using that by simp
  have c4: "?pc = (if ?fl = [] then 1 else \<lceil>real (length ?fl) / real_of_int sz\<rceil>)"
    by (simp add: page_count_def)
  have c5: "(?pc - 1) * sz < ?n \<and> ?n \<le> ?pc * sz" if "?fl \<noteq> []"
    using page_count_bounds [of ?n sz] that assms by simp
  have c6: "get_movies p src page sz filters s =
      (Inr \<lparr>r_items = fst (fst (get_movies_paginated p src page sz filters s)),
            r_total = ?n, r_page = page, r_size = sz, r_pages = ?pc\<rparr>, ?s1)"
    if "sz \<le> 100"
    using that assms unfolding eq by (simp add: get_movies_def eq)
  have pos: "1 \<le> ?pc" using page_count_pos [of ?n sz] assms by simp
  have cover: "?n \<le> ?pc * sz"
  proof (cases "?fl = []")
    case True
    then show ?thesis using pos assms by simp
  next
    case False
    with c5 show ?thesis by simp
  qed
  have "(\<lambda>q. fst (fst (get_movies_paginated p src q sz filters s)))
      = (\<lambda>q. py_slice ?fl ((q - 1) * sz) ((q - 1) * sz + sz))"
    by (simp add: get_movies_paginated_def Let_def fun_eq_iff)
  then have c7: "concat (map (\<lambda>q. fst (fst (get_movies_paginated p src q sz filters s))) [1..?pc]) = ?fl"
    using concat_pages [of sz ?fl ?pc] assms cover pos by simp
  from c1 c2 c3 c4 c5 c6 c7 show ?thesis by blast
qed

theorem pagination_slices_witness:
  "(1::int) \<le> 2 \<and> (1::int) \<le> 1 \<and>
   get_movies_paginated from_csv_row_model missing_source 2 1 None two_db =
     (([zero_movie\<lparr>movie_id := 2\<rparr>], 2), two_db) \<and>
   page_count 2 1 = 2 \<and>
   get_movies from_csv_row_model missing_source 2 1 None two_db =
     (Inr \<lparr>r_items = [zero_movie\<lparr>movie_id := 2\<rparr>], r_total = 2, r_page = 2, r_size = 1, r_pages = 2\<rparr>,
      two_db) \<and>
   concat (map (\<lambda>q. fst (fst (get_movies_paginated from_csv_row_model missing_source q 1 None two_db)))
            [1..2]) = two_movies"
proof -
  have l: "ensure_loaded from_csv_row_model missing_source two_db = two_db"
    by (simp add: ensure_loaded_def two_db_def loaded_db_def)
  have m: "apply_filters (movies two_db) None = two_movies"
    by (simp add: apply_filters_def two_db_def loaded_db_def)
  have len: "length two_movies = 2" "two_movies \<noteq> []"
    by (simp_all add: two_movies_def)
  have pc: "page_count 2 1 = 2"
    by (simp add: page_count_def)
  have tk: "drop (Suc 0) two_movies = [zero_movie\<lparr>movie_id := 2\<rparr>]"
    by (simp add: two_movies_def)
  from pagination_slices [of 2 1 from_csv_row_model missing_source None two_db]
  show ?thesis
    unfolding l m by (simp add: len pc tk)
qed

text \<open>
  Claim C8. After \<open>_ensure_loaded\<close> the store is marked as loaded, and a later call
  returns the store as it is whatever the source has become, so the loader runs at
  most once. When the loader raises (the single-file loader finds no encoding that
  reads the file), the store is left with no records and marked as loaded; the same
  holds for a new store whose source is missing. On a store that is loaded and empty,
  \<open>get_movies_paginated\<close> returns an empty page with total 0 and
  \<open>get_movie_by_id\<close> returns \<open>None\<close>, and neither touches the store.
\<close>

theorem load_once_failure_empty:
  "loaded (ensure_loaded p src s) \<and>
   ensure_loaded p' src' (ensure_loaded p src s) = ensure_loaded p src s \<and>
   (\<not> loaded s \<and> load p src s = Inl e \<longrightarrow>
      ensure_loaded p src s = s\<lparr>movies := [], loaded := True\<rparr>) \<and>
   (\<not> loaded s \<and> \<not> use_chunks s \<and> src_exists src \<and> \<not> encoding_found src \<longrightarrow>
      load p src s = Inl NoCompatibleEncoding) \<and>
   (\<not> src_exists src \<longrightarrow>
      ensure_loaded p src (init_db c) = \<lparr>movies = [], next_id = 1, use_chunks = \<not> c, loaded = True\<rparr>) \<and>
   (movies (ensure_loaded p src s) = [] \<longrightarrow>
      get_movies_paginated p' src' page sz filters (ensure_loaded p src s)
        = (([], 0), ensure_loaded p src s) \<and>
      get_movie_by_id p' src' i (ensure_loaded p src s) = (None, ensure_loaded p src s))"
proof -
  let ?s1 = "ensure_loaded p src s"
  have a: "loaded ?s1" by (rule ensure_loaded_is_loaded)
  have b: "ensure_loaded p' src' ?s1 = ?s1" by (rule ensure_loaded_once)
  have c: "?s1 = s\<lparr>movies := [], loaded := True\<rparr>" if "\<not> loaded s" "load p src s = Inl e"
    using that by (simp add: ensure_loaded_def)
  have d: "load p src s = Inl NoCompatibleEncoding"
    if "\<not> use_chunks s" "src_exists src" "\<not> encoding_found src"
    using that by (simp add: load_def load_from_csv_chunked_def)
  have e: "ensure_loaded p src (init_db c) = \<lparr>movies = [], next_id = 1, use_chunks = \<not> c, loaded = True\<rparr>"
    if "\<not> src_exists src"
    using that
    by (simp add: ensure_loaded_def init_db_def load_def load_from_chunks_def load_from_csv_chunked_def)
  have f: "get_movies_paginated p' src' page sz filters ?s1 = (([], 0), ?s1) \<and>
      get_movie_by_id p' src' i ?s1 = (None, ?s1)"
    if "movies ?s1 = []"
  proof -
    have "apply_filters [] filters = []"
      by (cases filters) (simp add: apply_filters_def, simp add: apply_filters_keeps)
    then show ?thesis
      using that b by (simp add: get_movies_paginated_def get_movie_by_id_def Let_def py_slice_def)
  qed
  from a b c d e f show ?thesis by blast
qed

theorem load_once_failure_empty_witness:
  "\<not> loaded (init_db True) \<and> \<not> use_chunks (init_db True) \<and>
   src_exists unreadable_source \<and> \<not> encoding_found unreadable_source \<and>
   load from_csv_row_model unreadable_source (init_db True) = Inl NoCompatibleEncoding \<and>
   \<not> src_exists missing_source \<and>
   ensure_loaded from_csv_row_model unreadable_source (init_db True)
     = \<lparr>movies = [], next_id = 1, use_chunks = False, loaded = True\<rparr> \<and>
   ensure_loaded from_csv_row_model skipped_row_source
       (ensure_loaded from_csv_row_model unreadable_source (init_db True))
     = \<lparr>movies = [], next_id = 1, use_chunks = False, loaded = True\<rparr> \<and>
   get_movies_paginated from_csv_row_model skipped_row_source 1 20 None
       (ensure_loaded from_csv_row_model unreadable_source (init_db True))
     = (([], 0), \<lparr>movies = [], next_id = 1, use_chunks = False, loaded = True\<rparr>) \<and>
   get_movie_by_id from_csv_row_model skipped_row_source 1
       (ensure_loaded from_csv_row_model unreadable_source (init_db True))
     = (None, \<lparr>movies = [], next_id = 1, use_chunks = False, loaded = True\<rparr>) \<and>
   ensure_loaded from_csv_row_model missing_source (init_db False)
     = \<lparr>movies = [], next_id = 1, use_chunks = True, loaded = True\<rparr>"
proof -
  have h: "\<not> loaded (init_db True)" "\<not> use_chunks (init_db True)"
    "src_exists unreadable_source" "\<not> encoding_found unreadable_source" "\<not> src_exists missing_source"
    by (simp_all add: init_db_def unreadable_source_def missing_source_def)
  note t = load_once_failure_empty [of from_csv_row_model unreadable_source "init_db True"
      from_csv_row_model skipped_row_source NoCompatibleEncoding True 1 20 None 1]
  from t h have ld: "load from_csv_row_model unreadable_source (init_db True) = Inl NoCompatibleEncoding"
    by blast
  with t h have "ensure_loaded from_csv_row_model unreadable_source (init_db True)
      = (init_db True)\<lparr>movies := [], loaded := True\<rparr>"
    by blast
  then have e1: "ensure_loaded from_csv_row_model unreadable_source (init_db True)
      = \<lparr>movies = [], next_id = 1, use_chunks = False, loaded = True\<rparr>"
    by (simp add: init_db_def)
  from t have e2: "ensure_loaded from_csv_row_model skipped_row_source
       (ensure_loaded from_csv_row_model unreadable_source (init_db True))
     = ensure_loaded from_csv_row_model unreadable_source (init_db True)"
    by blast
  from t have "movies (ensure_loaded from_csv_row_model unreadable_source (init_db True)) = [] \<longrightarrow>
      get_movies_paginated from_csv_row_model skipped_row_source 1 20 None
          (ensure_loaded from_csv_row_model unreadable_source (init_db True))
        = (([], 0), ensure_loaded from_csv_row_model unreadable_source (init_db True)) \<and>
      get_movie_by_id from_csv_row_model skipped_row_source 1
          (ensure_loaded from_csv_row_model unreadable_source (init_db True))
        = (None, ensure_loaded from_csv_row_model unreadable_source (init_db True))"
    by blast
  then have e3: "get_movies_paginated from_csv_row_model skipped_row_source 1 20 None
          (ensure_loaded from_csv_row_model unreadable_source (init_db True))
        = (([], 0), ensure_loaded from_csv_row_model unreadable_source (init_db True))"
    and e4: "get_movie_by_id from_csv_row_model skipped_row_source 1
          (ensure_loaded from_csv_row_model unreadable_source (init_db True))
        = (None, ensure_loaded from_csv_row_model unreadable_source (init_db True))"
    by (simp_all add: e1)
  have e6: "ensure_loaded from_csv_row_model missing_source (init_db False)
     = \<lparr>movies = [], next_id = 1, use_chunks = True, loaded = True\<rparr>"
    using load_once_failure_empty [of from_csv_row_model missing_source "init_db True"
      from_csv_row_model skipped_row_source NoCompatibleEncoding False 1 20 None 1] h
    by simp
  show ?thesis
    using h ld e2 e3 e4 e6 unfolding e1 by simp
qed

section \<open>Identifiers and statistics\<close>

text \<open>
  Claim C1 at a failing input. A store built with a \<open>csv_path\<close> loads a file of three
  rows of which the first is malformed. \<open>_load_from_csv_chunked\<close> numbers the rows
  by their position, so the two records get the identifiers 2 and 3, and it sets
  \<open>_next_id\<close> to the number of records plus one, which is 3. The next
  \<open>create_movie\<close> returns 3, an identifier that a loaded record already has, and
  the store then holds two records with the identifier 3.
\<close>

theorem csv_loader_skipped_row_id_collision:
  "map movie_id (movies (ensure_loaded from_csv_row_model skipped_row_source (init_db True))) = [2, 3] \<and>
   next_id (ensure_loaded from_csv_row_model skipped_row_source (init_db True)) = 3 \<and>
   fst (create_movie from_csv_row_model skipped_row_source test_command (init_db True)) = 3 \<and>
   map movie_id (movies (snd (create_movie from_csv_row_model skipped_row_source test_command (init_db True))))
     = [2, 3, 3]"
proof -
  have ch: "chunks_of load_chunk_size [Malformed, Row test_command, Row test_command]
      = [[Malformed, Row test_command, Row test_command]]"
    by (simp add: load_chunk_size_def chunks_of.simps)
  have ld: "ensure_loaded from_csv_row_model skipped_row_source (init_db True)
      = \<lparr>movies = [new_movie 2 test_command, new_movie 3 test_command], next_id = 3,
         use_chunks = False, loaded = True\<rparr>"
    by (simp add: ensure_loaded_def load_def load_from_csv_chunked_def init_db_def
          skipped_row_source_def ch Let_def)
  show ?thesis
    unfolding create_movie_def ld by (simp add: Let_def new_movie_def)
qed

lemma get_stats_counts:
  "total_movies (fst (get_stats p src s)) = snd (fst (get_movies_paginated p src 1 99999 None s)) \<and>
   favorites_count (fst (get_stats p src s)) =
     int (length (filter is_favorite (fst (fst (get_movies_paginated p src 1 99999 None s))))) \<and>
   rated_count (fst (get_stats p src s)) =
     int (length (filter (\<lambda>m. personal_rating m \<noteq> None) (fst (fst (get_movies_paginated p src 1 99999 None s)))))"
  by (simp add: get_stats_def Let_def split: prod.splits)

lemma stats_page: 
  "get_movies_paginated p src 1 99999 None s =
     ((take 99999 (movies (ensure_loaded p src s)), int (length (movies (ensure_loaded p src s)))),
      ensure_loaded p src s)"
  using get_movies_paginated_eq [of 1 99999 p src None s] by (simp add: apply_filters_def)

lemma many_movies_no_favorite: "filter is_favorite (many_movies n) = []"
  by (simp add: many_movies_def new_movie_def filter_map comp_def)

text \<open>
  Claim C6 at a failing input. \<open>get_stats\<close> reads the records through
  \<open>get_movies_paginated(page=1, size=99999)\<close>. On a store of 100000 records of
  which only the last is a favorite, it reports 100000 records in total and no
  favorite: the counts and histograms cover the first 99999 records only.
\<close>

theorem stats_beyond_page_limit:
  "length (movies big_db) = 100000 \<and>
   length (filter is_favorite (movies big_db)) = 1 \<and>
   total_movies (fst (get_stats from_csv_row_model missing_source big_db)) = 100000 \<and>
   favorites_count (fst (get_stats from_csv_row_model missing_source big_db)) = 0"
proof -
  have l: "ensure_loaded from_csv_row_model missing_source big_db = big_db"
    by (simp add: ensure_loaded_def big_db_def loaded_db_def)
  have m: "movies big_db = many_movies 99999 @ [(new_movie 100000 test_command)\<lparr>is_favorite := True\<rparr>]"
    by (simp add: big_db_def loaded_db_def)
  have len: "length (many_movies 99999) = 99999"
    by (simp add: many_movies_def)
  have tk: "take 99999 (movies big_db) = many_movies 99999"
    unfolding m by (simp add: len)
  have a: "length (movies big_db) = 100000"
    unfolding m by (simp add: len)
  have b: "length (filter is_favorite (movies big_db)) = 1"
    unfolding m by (simp add: many_movies_no_favorite)
  have c: "total_movies (fst (get_stats from_csv_row_model missing_source big_db)) = 100000"
    by (simp add: get_stats_counts stats_page l a)
  have d: "favorites_count (fst (get_stats from_csv_row_model missing_source big_db)) = 0"
    by (simp add: get_stats_counts stats_page l tk many_movies_no_favorite)
  from a b c d show ?thesis by blast
qed

lemma stats_empty_store:
  "get_stats p src (loaded_db [] n) =
     (\<lparr>total_movies = 0, favorites_count = 0, rated_count = 0, top_genres = [],
        decade_distribution = []\<rparr>, loaded_db [] n)"
  by (simp add: get_stats_def get_movies_paginated_def ensure_loaded_def loaded_db_def
        apply_filters_def py_slice_def genre_names_def decades_def Let_def)

section \<open>Statistics on stores within the page limit\<close>

lemma bump_keys: "map fst (bump k cs) = (if k \<in> fst ` set cs then map fst cs else map fst cs @ [k])"
  by (induction cs) (auto split: if_splits)

lemma bump_key_set: "fst ` set (bump k cs) = insert k (fst ` set cs)"
proof -
  have "fst ` set (bump k cs) = set (map fst (bump k cs))" by simp
  also have "\<dots> = insert k (fst ` set cs)" unfolding bump_keys by auto
  finally show ?thesis .
qed

lemma bump_distinct: "distinct (map fst cs) \<Longrightarrow> distinct (map fst (bump k cs))"
  by (simp add: bump_keys)

lemma bump_lookup:
  "distinct (map fst cs) \<Longrightarrow>
   map_of (bump k cs) k' =
     (if k' = k then Some (case map_of cs k of None \<Rightarrow> 1 | Some c \<Rightarrow> c + 1) else map_of cs k')"
proof (induction cs)
  case Nil
  then show ?case by simp
next
  case (Cons a cs)
  obtain k0 c0 where a: "a = (k0, c0)" by (cases a)
  from Cons a show ?case by (auto simp: image_iff dest: map_of_SomeD)
qed

lemma foldl_bump_distinct:
  "distinct (map fst cs) \<Longrightarrow> distinct (map fst (foldl (\<lambda>counts k. bump k counts) cs ks))"
  by (induction ks arbitrary: cs) (simp_all add: bump_distinct)

lemma foldl_bump_lookup:
  "distinct (map fst cs) \<Longrightarrow>
   map_of (foldl (\<lambda>counts k. bump k counts) cs ks) k =
     (if k \<in> set ks \<or> k \<in> fst ` set cs
      then Some ((case map_of cs k of None \<Rightarrow> 0 | Some c \<Rightarrow> c) + int (count_list ks k))
      else None)"
proof (induction ks arbitrary: cs)
  case Nil
  then show ?case
    by (auto simp: map_of_eq_None_iff split: option.splits)
next
  case (Cons a ks)
  have d: "distinct (map fst (bump a cs))" using Cons.prems by (rule bump_distinct)
  have keys: "fst ` set (bump a cs) = insert a (fst ` set cs)"
    by (rule bump_key_set)
  show ?case
    using Cons.IH [OF d] Cons.prems
    by (auto simp: keys bump_lookup split: option.splits)
qed

lemma hist_counts:
  "distinct (map fst (hist ks)) \<and>
   map_of (hist ks) k = (if k \<in> set ks then Some (int (count_list ks k)) else None)"
  using foldl_bump_distinct [of "[]" ks] foldl_bump_lookup [of "[]" ks k]
  by (simp add: hist_def)

text \<open>
  On a store of at most 99999 records \<open>get_stats\<close> sees every record: the three
  counts are taken over the whole store, and the two histograms count every genre name
  and every decade once per occurrence (\<open>hist_counts\<close>). The genre list has at most
  ten entries in descending order of their counts; the decade list is in ascending
  order of the decades.
\<close>

lemma stats_whole_store:
  assumes "length (movies (ensure_loaded p src s)) \<le> 99999"
  shows "get_stats p src s =
     (\<lparr>total_movies = int (length (movies (ensure_loaded p src s))),
       favorites_count = int (length (filter is_favorite (movies (ensure_loaded p src s)))),
       rated_count = int (length (filter (\<lambda>m. personal_rating m \<noteq> None) (movies (ensure_loaded p src s)))),
       top_genres = take 10 (sort_key (\<lambda>x. - snd x) (hist (genre_names (movies (ensure_loaded p src s))))),
       decade_distribution = sort (hist (decades (movies (ensure_loaded p src s))))\<rparr>,
      ensure_loaded p src s)"
  using assms by (simp add: get_stats_def stats_page hist_def Let_def)

lemma top_genres_descending:
  "length (take 10 (sort_key (\<lambda>x. - snd x) cs)) \<le> 10 \<and>
   sorted (map (\<lambda>x. - snd x) (take 10 (sort_key (\<lambda>x. - snd x) cs))) \<and>
   set (take 10 (sort_key (\<lambda>x. - snd x) cs)) \<subseteq> set cs"
proof -
  have "sorted (map (\<lambda>x. - snd x) (sort_key (\<lambda>x. - snd x) cs))"
    by (rule sorted_sort_key)
  then have "sorted (take 10 (map (\<lambda>x. - snd x) (sort_key (\<lambda>x. - snd x) cs)))"
    by (rule sorted_wrt_take)
  moreover have "set (take 10 (sort_key (\<lambda>x. - snd x) cs)) \<subseteq> set (sort_key (\<lambda>x. - snd x) cs)"
    by (rule set_take_subset)
  ultimately show ?thesis by (simp add: take_map)
qed

lemma decade_distribution_ascending:
  fixes cs :: "(int \<times> int) list"
  shows "sorted (map fst (sort cs)) \<and> set (sort cs) = set cs \<and>
         (distinct (map fst cs) \<longrightarrow> distinct (map fst (sort cs)))"
proof -
  have s: "sorted (sort cs)" by simp
  have "sorted (map fst xs)" if "sorted xs" for xs :: "(int \<times> int) list"
    using that by (induction xs) (auto simp: less_eq_prod_def)
  with s have "sorted (map fst (sort cs))" by blast
  moreover have "distinct (map fst (sort cs))" if "distinct (map fst cs)"
    using that by (simp add: distinct_map)
  ultimately show ?thesis by simp
qed

section \<open>Identifiers under the directory loader\<close>

text \<open>
  The directory loader, which the store \<open>db\<close> of the application uses, numbers only
  the rows it keeps. With a row parser that gives a record the identifier it is passed,
  the store it loads has the identifiers 1 to n and \<open>_next_id = n + 1\<close>, and every
  run of creates, updates and deletes keeps the identifiers distinct and below
  \<open>_next_id\<close>; the identifiers the creates return increase strictly and exceed every
  identifier loaded.
\<close>

lemma from_csv_row_model_assigns_id: "assigns_id from_csv_row_model"
proof -
  have "movie_id m = i" if "from_csv_row_model row i = Some m" for row i m
    using that by (cases row) (auto simp: new_movie_def)
  then show ?thesis unfolding assigns_id_def by blast
qed

lemma numbered_snoc: "numbered ms \<Longrightarrow> movie_id m = int (length ms) + 1 \<Longrightarrow> numbered (ms @ [m])"
  by (simp add: numbered_def)

lemma chunk_rows_loop_numbered:
  assumes "assigns_id p"
  shows "numbered ms \<Longrightarrow> total_loaded = int (length ms) \<Longrightarrow>
         numbered (snd (chunk_rows_loop p rows (total_loaded, ms))) \<and>
         fst (chunk_rows_loop p rows (total_loaded, ms))
           = int (length (snd (chunk_rows_loop p rows (total_loaded, ms))))"
proof (induction rows arbitrary: total_loaded ms)
  case Nil
  then show ?case by simp
next
  case (Cons row rows)
  show ?case
  proof (cases "p row (total_loaded + 1)")
    case None
    with Cons show ?thesis by simp
  next
    case (Some m)
    with assms have "movie_id m = total_loaded + 1" by (simp add: assigns_id_def)
    with Cons.prems have "numbered (ms @ [m])" "total_loaded + 1 = int (length (ms @ [m]))"
      by (simp_all add: numbered_snoc)
    from Cons.IH [OF this] Some show ?thesis by simp
  qed
qed

lemma chunk_files_loop_numbered:
  assumes "assigns_id p"
  shows "numbered (snd st) \<Longrightarrow> fst st = int (length (snd st)) \<Longrightarrow>
         numbered (snd (chunk_files_loop p files st))"
proof (induction files arbitrary: st)
  case Nil
  then show ?case by simp
next
  case (Cons chunk files)
  show ?case
  proof (cases chunk)
    case None
    with Cons show ?thesis by simp
  next
    case (Some rows)
    obtain t ms where st: "st = (t, ms)" by (cases st)
    from chunk_rows_loop_numbered [OF assms, of ms t rows] Cons.prems st
    have "numbered (snd (chunk_rows_loop p rows st))"
      "fst (chunk_rows_loop p rows st) = int (length (snd (chunk_rows_loop p rows st)))"
      by simp_all
    from Cons.IH [OF this] Some show ?thesis by simp
  qed
qed

lemma numbered_fresh:
  assumes "numbered ms"
  shows "distinct (map movie_id ms) \<and> list_all (\<lambda>m. 1 \<le> movie_id m \<and> movie_id m < int (length ms) + 1) ms"
proof -
  have eq: "map movie_id ms = map (\<lambda>k. int k + 1) [0..<length ms]"
    using assms by (simp add: numbered_def)
  have "distinct (map (\<lambda>k. int k + 1) [0..<length ms])"
    by (simp add: distinct_map inj_on_def)
  with eq have d: "distinct (map movie_id ms)" by simp
  have "\<forall>i\<in>set (map movie_id ms). 1 \<le> i \<and> i < int (length ms) + 1"
    unfolding eq by auto
  then have "list_all (\<lambda>m. 1 \<le> movie_id m \<and> movie_id m < int (length ms) + 1) ms"
    by (simp add: list_all_iff)
  with d show ?thesis by simp
qed

lemma dir_loader_ids_fresh:
  assumes "assigns_id p"
  shows "ids_fresh (ensure_loaded p src (init_db False))"
proof -
  have "numbered (snd (chunk_files_loop p (chunk_files src) (0, [])))"
    using chunk_files_loop_numbered [OF assms, of "(0, [])" "chunk_files src"]
    by (simp add: numbered_def)
  from numbered_fresh [OF this] show ?thesis
    by (simp add: ensure_loaded_def load_def load_from_chunks_def init_db_def ids_fresh_def Let_def)
qed

lemma create_movie_fresh:
  assumes "ids_fresh (ensure_loaded p src s)"
  shows "fst (create_movie p src command s) = next_id (ensure_loaded p src s) \<and>
         list_all (\<lambda>m. movie_id m < fst (create_movie p src command s)) (movies (ensure_loaded p src s)) \<and>
         ids_fresh (snd (create_movie p src command s)) \<and>
         loaded (snd (create_movie p src command s)) \<and>
         next_id (snd (create_movie p src command s)) = next_id (ensure_loaded p src s) + 1"
proof -
  let ?s1 = "ensure_loaded p src s"
  let ?m = "new_movie (next_id ?s1) command"
  have l: "loaded ?s1" by (rule ensure_loaded_is_loaded)
  have n: "1 \<le> next_id ?s1"
    and d: "distinct (map movie_id (movies ?s1))"
    and b: "\<forall>m\<in>set (movies ?s1). 1 \<le> movie_id m \<and> movie_id m < next_id ?s1"
    using assms by (simp_all add: ids_fresh_def list_all_iff)
  have r: "create_movie p src command s =
      (next_id ?s1, ?s1\<lparr>movies := movies ?s1 @ [?m], next_id := next_id ?s1 + 1\<rparr>)"
    by (simp add: create_movie_def Let_def new_movie_def)
  have i: "movie_id ?m = next_id ?s1" by (simp add: new_movie_def)
  from b have nin: "next_id ?s1 \<notin> movie_id ` set (movies ?s1)" by auto
  have f: "ids_fresh (?s1\<lparr>movies := movies ?s1 @ [?m], next_id := next_id ?s1 + 1\<rparr>)"
    unfolding ids_fresh_def list_all_iff using n d b nin i by auto
  from b have "list_all (\<lambda>m. movie_id m < next_id ?s1) (movies ?s1)"
    by (simp add: list_all_iff)
  with f l show ?thesis unfolding r by simp
qed

lemma delete_loop_sub:
  "set (snd (delete_loop i ms)) \<subseteq> set ms \<and>
   (distinct (map movie_id ms) \<longrightarrow> distinct (map movie_id (snd (delete_loop i ms))))"
  by (induction ms) (auto split: prod.splits)

lemma update_loop_ids: "map movie_id (snd (update_loop i command ms)) = map movie_id ms"
  by (induction ms) (auto simp: apply_update_def split: prod.splits option.splits)

lemma delete_movie_fresh:
  assumes "ids_fresh (ensure_loaded p src s)"
  shows "ids_fresh (snd (delete_movie p src i s)) \<and> loaded (snd (delete_movie p src i s)) \<and>
         next_id (snd (delete_movie p src i s)) = next_id (ensure_loaded p src s)"
proof -
  let ?s1 = "ensure_loaded p src s"
  have r: "snd (delete_movie p src i s) = ?s1\<lparr>movies := snd (delete_loop i (movies ?s1))\<rparr>"
    by (simp add: delete_movie_def Let_def split: prod.splits)
  have l: "loaded ?s1" by (rule ensure_loaded_is_loaded)
  from assms delete_loop_sub [of i "movies ?s1"] l show ?thesis
    unfolding r ids_fresh_def list_all_iff by auto
qed

lemma update_movie_fresh:
  assumes "ids_fresh (ensure_loaded p src s)"
  shows "ids_fresh (snd (update_movie p src i command s)) \<and>
         loaded (snd (update_movie p src i command s)) \<and>
         next_id (snd (update_movie p src i command s)) = next_id (ensure_loaded p src s)"
proof -
  let ?s1 = "ensure_loaded p src s"
  have r: "snd (update_movie p src i command s) = ?s1\<lparr>movies := snd (update_loop i command (movies ?s1))\<rparr>"
    by (simp add: update_movie_def Let_def split: prod.splits)
  have l: "loaded ?s1" by (rule ensure_loaded_is_loaded)
  have "set (map movie_id (snd (update_loop i command (movies ?s1)))) = set (map movie_id (movies ?s1))"
    by (simp only: update_loop_ids)
  then have "\<forall>m\<in>set (snd (update_loop i command (movies ?s1))). movie_id m \<in> movie_id ` set (movies ?s1)"
    by auto
  with assms l show ?thesis
    unfolding r ids_fresh_def list_all_iff by (auto simp: update_loop_ids)
qed

lemma run_fresh:
  assumes "ids_fresh (ensure_loaded p src s)"
  shows "sorted_wrt (<) (fst (run p src ops s)) \<and>
         list_all (\<lambda>i. next_id (ensure_loaded p src s) \<le> i) (fst (run p src ops s)) \<and>
         ids_fresh (ensure_loaded p src (snd (run p src ops s)))"
  using assms
proof (induction ops arbitrary: s)
  case Nil
  then show ?case by simp
next
  case (Cons a ops)
  show ?case
  proof (cases a)
    case (Create command)
    let ?s' = "snd (create_movie p src command s)"
    from create_movie_fresh [OF Cons.prems, of command]
    have c: "fst (create_movie p src command s) = next_id (ensure_loaded p src s)"
      "ids_fresh ?s'" "loaded ?s'" "next_id ?s' = next_id (ensure_loaded p src s) + 1"
      by simp_all
    then have e: "ensure_loaded p src ?s' = ?s'" by (simp add: ensure_loaded_loaded)
    with c have "ids_fresh (ensure_loaded p src ?s')" by simp
    from Cons.IH [OF this] e c
    have ih: "sorted_wrt (<) (fst (run p src ops ?s'))"
      "list_all (\<lambda>i. next_id (ensure_loaded p src s) + 1 \<le> i) (fst (run p src ops ?s'))"
      "ids_fresh (ensure_loaded p src (snd (run p src ops ?s')))"
      by simp_all
    from ih(2) have "\<forall>i\<in>set (fst (run p src ops ?s')). next_id (ensure_loaded p src s) < i"
      by (auto simp: list_all_iff)
    with ih c Create show ?thesis
      by (fastforce simp: list_all_iff split: prod.splits)
  next
    case (Update i command)
    let ?s' = "snd (update_movie p src i command s)"
    from update_movie_fresh [OF Cons.prems, of i command]
    have c: "ids_fresh ?s'" "loaded ?s'" "next_id ?s' = next_id (ensure_loaded p src s)"
      by simp_all
    then have e: "ensure_loaded p src ?s' = ?s'" by (simp add: ensure_loaded_loaded)
    with c have "ids_fresh (ensure_loaded p src ?s')" by simp
    from Cons.IH [OF this] e c Update show ?thesis by simp
  next
    case (Delete i)
    let ?s' = "snd (delete_movie p src i s)"
    from delete_movie_fresh [OF Cons.prems, of i]
    have c: "ids_fresh ?s'" "loaded ?s'" "next_id ?s' = next_id (ensure_loaded p src s)"
      by simp_all
    then have e: "ensure_loaded p src ?s' = ?s'" by (simp add: ensure_loaded_loaded)
    with c have "ids_fresh (ensure_loaded p src ?s')" by simp
    from Cons.IH [OF this] e c Delete show ?thesis by simp
  qed
qed

lemma dir_loader_run_ids:
  assumes "assigns_id p"
  shows "sorted_wrt (<) (fst (run p src ops (init_db False))) \<and>
         list_all (\<lambda>i. list_all (\<lambda>m. movie_id m < i) (movies (ensure_loaded p src (init_db False))))
           (fst (run p src ops (init_db False))) \<and>
         ids_fresh (ensure_loaded p src (snd (run p src ops (init_db False))))"
proof -
  let ?s0 = "ensure_loaded p src (init_db False)"
  have f: "ids_fresh ?s0" using assms by (rule dir_loader_ids_fresh)
  from run_fresh [OF f, of ops]
  have r: "sorted_wrt (<) (fst (run p src ops (init_db False)))"
    "\<forall>i\<in>set (fst (run p src ops (init_db False))). next_id ?s0 \<le> i"
    "ids_fresh (ensure_loaded p src (snd (run p src ops (init_db False))))"
    by (simp_all add: list_all_iff)
  from f have "\<forall>m\<in>set (movies ?s0). movie_id m < next_id ?s0"
    by (simp add: ids_fresh_def list_all_iff)
  with r(2) have "\<forall>i\<in>set (fst (run p src ops (init_db False))). \<forall>m\<in>set (movies ?s0). movie_id m < i"
    by fastforce
  with r show ?thesis by (simp add: list_all_iff)
qed

section \<open>Identifiers under the single-file loader without skipped rows\<close>

text \<open>
  When the row parser never raises, the position numbering of the single-file loader
  and the count of kept rows agree, and the invariant holds there as well; two
  records can only come to share an identifier after a row has been skipped.
\<close>

lemma csv_rows_loop_numbered:
  assumes "assigns_id p" "\<And>row i. p row i \<noteq> None"
  shows "numbered ms \<Longrightarrow> int (length ms) = processed_count + pos \<Longrightarrow>
         numbered (csv_rows_loop p processed_count pos rows ms)"
proof (induction rows arbitrary: pos ms)
  case Nil
  then show ?case by simp
next
  case (Cons row rows)
  from assms(2) [of row "processed_count + pos + 1"]
  obtain m where m: "p row (processed_count + pos + 1) = Some m"
    by blast
  with assms(1) have "movie_id m = processed_count + pos + 1" by (simp add: assigns_id_def)
  with Cons.prems have "numbered (ms @ [m])" "int (length (ms @ [m])) = processed_count + (pos + 1)"
    by (simp_all add: numbered_snoc)
  from Cons.IH [OF this] m show ?case by simp
qed

lemma csv_chunks_loop_numbered:
  assumes "assigns_id p" "\<And>row i. p row i \<noteq> None"
  shows "numbered ms \<Longrightarrow> numbered (csv_chunks_loop p chunks ms)"
proof (induction chunks arbitrary: ms)
  case Nil
  then show ?case by simp
next
  case (Cons chunk chunks)
  from csv_rows_loop_numbered [OF assms, of ms "int (length ms)" 0 chunk] Cons.prems
  have "numbered (csv_rows_loop p (int (length ms)) 0 chunk ms)" by simp
  from Cons.IH [OF this] show ?case by simp
qed

lemma csv_loader_ids_fresh:
  assumes "assigns_id p" "\<And>row i. p row i \<noteq> None"
  shows "ids_fresh (ensure_loaded p src (init_db True))"
proof -
  have "numbered (csv_chunks_loop p chunks [])" for chunks
    using csv_chunks_loop_numbered [OF assms, of "[]" chunks] by (simp add: numbered_def)
  from numbered_fresh [OF this] show ?thesis
    by (simp add: ensure_loaded_def load_def load_from_csv_chunked_def init_db_def ids_fresh_def
          Let_def)
qed

lemma csv_loader_run_ids:
  assumes "assigns_id p" "\<And>row i. p row i \<noteq> None"
  shows "sorted_wrt (<) (fst (run p src ops (init_db True))) \<and>
         list_all (\<lambda>i. list_all (\<lambda>m. movie_id m < i) (movies (ensure_loaded p src (init_db True))))
           (fst (run p src ops (init_db True))) \<and>
         ids_fresh (ensure_loaded p src (snd (run p src ops (init_db True))))"
proof -
  let ?s0 = "ensure_loaded p src (init_db True)"
  have f: "ids_fresh ?s0" using assms by (rule csv_loader_ids_fresh)
  from run_fresh [OF f, of ops]
  have r: "sorted_wrt (<) (fst (run p src ops (init_db True)))"
    "\<forall>i\<in>set (fst (run p src ops (init_db True))). next_id ?s0 \<le> i"
    "ids_fresh (ensure_loaded p src (snd (run p src ops (init_db True))))"
    by (simp_all add: list_all_iff)
  from f have "\<forall>m\<in>set (movies ?s0). movie_id m < next_id ?s0"
    by (simp add: ids_fresh_def list_all_iff)
  with r(2) have "\<forall>i\<in>set (fst (run p src ops (init_db True))). \<forall>m\<in>set (movies ?s0). movie_id m < i"
    by fastforce
  with r show ?thesis by (simp add: list_all_iff)
qed

end
